theory Spec2Isabelle
  imports Main
begin

section \<open>Column-name sanitization\<close>

text \<open>
  Both scripts clean every column name with the same three pandas string operations
  (9_code_optimized.py lines 42-44, 99, 105, 128; code_5.py lines 49-51, 115-117):
  \<^verbatim>\<open>.str.replace('[^0-9a-zA-Z_]+', '_', regex=True)\<close>,
  \<^verbatim>\<open>.str.replace('__', '_', regex=False)\<close> and \<^verbatim>\<open>.str.strip('_')\<close>.
  A string is a list of bytes; a run of bytes outside the class is one run of
  characters outside the class, so the byte model agrees with Python on UTF-8 text.
\<close>

definition word_chars :: string where
  "word_chars = ''0123456789abcdefghijklmnopqrstuvwxyzABCDEFGHIJKLMNOPQRSTUVWXYZ_''"

definition is_word_char :: "char \<Rightarrow> bool" where
  "is_word_char c \<longleftrightarrow> c \<in> set word_chars"

text \<open>\<^verbatim>\<open>re.sub('[^0-9a-zA-Z_]+', '_', s)\<close>: every maximal run of characters outside the
  class becomes a single underscore.\<close>

function re_sub_nonword :: "string \<Rightarrow> string" where
  "re_sub_nonword [] = []"
| "re_sub_nonword (c # cs) =
     (if is_word_char c then c # re_sub_nonword cs
      else CHR ''_'' # re_sub_nonword (dropWhile (\<lambda>x. \<not> is_word_char x) cs))"
  by pat_completeness auto
termination
  by (relation "measure length") (auto simp: less_Suc_eq_le length_dropWhile_le)

text \<open>\<^verbatim>\<open>s.replace('__', '_')\<close>: one left-to-right pass over non-overlapping
  occurrences; the text produced by a replacement is not scanned again.\<close>

fun replace_dunder :: "string \<Rightarrow> string" where
  "replace_dunder (a # b # cs) =
     (if a = CHR ''_'' \<and> b = CHR ''_'' then CHR ''_'' # replace_dunder cs
      else a # replace_dunder (b # cs))"
| "replace_dunder cs = cs"

text \<open>\<^verbatim>\<open>s.strip('_')\<close>: drop all leading and all trailing underscores.\<close>

definition strip_us :: "string \<Rightarrow> string" where
  "strip_us s = rev (dropWhile (\<lambda>c. c = CHR ''_'') (rev (dropWhile (\<lambda>c. c = CHR ''_'') s)))"

definition sanitize :: "string \<Rightarrow> string" where
  "sanitize s = strip_us (replace_dunder (re_sub_nonword s))"


section \<open>Data frames\<close>

text \<open>
  A cell is a text value or absent (\<^verbatim>\<open>NaN\<close> in pandas, \<^verbatim>\<open>NULL\<close> in SQLite):
  the main file is read with \<^verbatim>\<open>dtype=str\<close>, and the mapping's cells are taken as
  the text that \<^verbatim>\<open>astype(str)\<close> gives them. A row maps a column name to its cell, a
  frame is the list of its column names and the list of its rows in index order; a
  frame is what \<^verbatim>\<open>read_csv\<close> or \<^verbatim>\<open>read_excel\<close> has parsed. The model covers
  frames whose column names are text and stay pairwise different when they are
  sanitized: pandas selects a column name that occurs twice as a frame of its own,
  which the scripts do not expect.
\<close>

type_synonym cell = "string option"

type_synonym row = "string \<Rightarrow> cell"

record frame =
  columns :: "string list"
  rows :: "row list"

datatype error = FileNotFoundError | ValueError | IndexError | AttributeError | KeyError

text \<open>\<^verbatim>\<open>df.columns = df.columns.str...\<close>: the columns are renamed in place, the data
  of a column moves to its new name.\<close>

definition set_columns :: "(string \<Rightarrow> string) \<Rightarrow> frame \<Rightarrow> frame" where
  "set_columns f df =
     \<lparr>columns = map f (columns df),
      rows = map (\<lambda>r c'. case find (\<lambda>c. f c = c') (columns df) of
                               None \<Rightarrow> None
                             | Some c \<Rightarrow> r c) (rows df)\<rparr>"

section \<open>Mapping loader\<close>

definition lower_char :: "char \<Rightarrow> char" where
  "lower_char c =
     (case map_of (zip ''ABCDEFGHIJKLMNOPQRSTUVWXYZ'' ''abcdefghijklmnopqrstuvwxyz'') c of
        None \<Rightarrow> c
      | Some d \<Rightarrow> d)"

definition lower :: "string \<Rightarrow> string" where
  "lower s = map lower_char s"

text \<open>\<^verbatim>\<open>p in s\<close> for strings.\<close>

fun contains :: "string \<Rightarrow> string \<Rightarrow> bool" where
  "contains [] p = (p = [])"
| "contains (c # cs) p = (take (length p) (c # cs) = p \<or> contains cs p)"

text \<open>The three \<^verbatim>\<open>next((col for col in mapping_cols if ...), None)\<close> searches of
  lines 48-50.\<close>

definition amt_senf_col_mapping :: "string list \<Rightarrow> string option" where
  "amt_senf_col_mapping mapping_cols =
     find (\<lambda>col. filter (\<lambda>c. c \<noteq> CHR ''_'') (lower col) = ''amtsenf''
                \<or> contains (lower col) ''amtsenf'') mapping_cols"

definition cat_no_col_mapping :: "string list \<Rightarrow> string option" where
  "cat_no_col_mapping mapping_cols =
     find (\<lambda>col. filter (\<lambda>c. c \<noteq> CHR ''_'') (lower col) = ''catno''
                \<or> contains (lower col) ''cat_no'') mapping_cols"

definition avg_value_col_mapping :: "string list \<Rightarrow> string option" where
  "avg_value_col_mapping mapping_cols = find (\<lambda>col. contains (lower col) ''avg'') mapping_cols"

text \<open>\<^verbatim>\<open>.fillna('').astype(str)\<close> on one cell.\<close>

definition fillna_str :: "cell \<Rightarrow> string" where
  "fillna_str c = (case c of None \<Rightarrow> [] | Some s \<Rightarrow> s)"

text \<open>Line 58 (line 64 of code_5.py): the composite key of a mapping row.\<close>

definition composite_key :: "cell \<Rightarrow> cell \<Rightarrow> string" where
  "composite_key amt_senf cat_no = fillna_str amt_senf @ ''_'' @ fillna_str cat_no"

text \<open>
  \<^verbatim>\<open>df_mapping_lookup\<close> (the table \<^verbatim>\<open>mapping_midtable\<close> of code_5.py): one entry
  (composite key, average value) for every row of the mapping source, in source order.
  The index of the frame is not unique: no entry is dropped or replaced.
\<close>

type_synonym lookup = "(string \<times> cell) list"

definition load_mapping :: "frame option \<Rightarrow> error + lookup" where
  "load_mapping mapping_file =
     (case mapping_file of
        None \<Rightarrow> Inl FileNotFoundError
      | Some raw \<Rightarrow>
          (let df_mapping = set_columns sanitize raw;
               mapping_cols = columns df_mapping
           in case (amt_senf_col_mapping mapping_cols, cat_no_col_mapping mapping_cols,
                    avg_value_col_mapping mapping_cols) of
                (Some a, Some c, Some v) \<Rightarrow>
                  Inr (map (\<lambda>r. (composite_key (r a) (r c), r v)) (rows df_mapping))
              | _ \<Rightarrow> Inl ValueError))"

section \<open>Column resolver\<close>

text \<open>Line 101 (line 149 of code_5.py): the target columns.\<close>

definition amt_columns :: "string list \<Rightarrow> string list" where
  "amt_columns cols = filter (\<lambda>col. take 4 (lower col) = ''amt_'') cols"

text \<open>Line 103 (line 156 of code_5.py): \<^verbatim>\<open>all_data_cols[0]\<close> raises on an empty
  header.\<close>

definition pick_id :: "string list \<Rightarrow> error + string" where
  "pick_id all_data_cols =
     (if ''id'' \<in> set all_data_cols then Inr ''id''
      else if ''head_id'' \<in> set all_data_cols then Inr ''head_id''
      else (case all_data_cols of [] \<Rightarrow> Inl IndexError | c # _ \<Rightarrow> Inr c))"

text \<open>Lines 96-105 of 9_code_optimized.py: the header is sanitized, the identifier
  column is picked from the sanitized header, and line 105 sanitizes the picked name
  once more.\<close>

definition id_column_data :: "string list \<Rightarrow> error + string" where
  "id_column_data header =
     (case pick_id (map sanitize header) of
        Inl e \<Rightarrow> Inl e
      | Inr c \<Rightarrow> Inr (sanitize c))"

section \<open>Join and transform engine of 9_code_optimized.py\<close>

text \<open>Line 151: \<^verbatim>\<open>isna() | (== '')\<close>.\<close>

definition is_blank :: "cell \<Rightarrow> bool" where
  "is_blank c \<longleftrightarrow> c = None \<or> c = Some []"

text \<open>
  \<^verbatim>\<open>unmapped_row_ids_in_chunk\<close> is a Python set. It is kept as a list without
  repetition; \<^verbatim>\<open>set.update\<close> adds the elements that are not yet members. Python
  leaves the iteration order of a set open, the list fixes one order.
\<close>

definition set_update :: "'a list \<Rightarrow> 'a list \<Rightarrow> 'a list" where
  "set_update acc xs = fold List.insert xs acc"

text \<open>Line 167 (lines 202 and 220 of code_5.py): the composite key of a cell of the
  main data, \<^verbatim>\<open>col_name + '_' + value\<close>.\<close>

definition key_of :: "string \<Rightarrow> row \<Rightarrow> string" where
  "key_of col_name r = col_name @ ''_'' @ fillna_str (r col_name)"

text \<open>The entries of the lookup that bear a key, in source order, and the average
  value of the first of them.\<close>

definition matches :: "lookup \<Rightarrow> string \<Rightarrow> (string \<times> cell) list" where
  "matches lk key = filter (\<lambda>(k, a). k = key) lk"

definition avg_of :: "lookup \<Rightarrow> string \<Rightarrow> cell" where
  "avg_of lk key = (case matches lk key of [] \<Rightarrow> None | (k, a) # _ \<Rightarrow> a)"

text \<open>Line 167 assigns the keys to the column \<^verbatim>\<open>composite_key\<close> of
  \<^verbatim>\<open>temp_df_col_clean\<close>. When the identifier column bears that name, the assignment
  replaces the identifiers of the frame by the keys; otherwise the identifier column is
  that of the chunk.\<close>

definition merged_id :: "string \<Rightarrow> string \<Rightarrow> row \<Rightarrow> cell" where
  "merged_id id_col col_name r =
     (if id_col = ''composite_key'' then Some (key_of col_name r) else r id_col)"

text \<open>Lines 160-167: \<^verbatim>\<open>temp_df_col_clean\<close> with its \<^verbatim>\<open>composite_key\<close> column: for
  every row whose cell is not blank, the row's index, the content of its identifier
  column after line 167, and its key.\<close>

definition temp_df_col_clean :: "string \<Rightarrow> string \<Rightarrow> row list \<Rightarrow> (nat \<times> cell \<times> string) list" where
  "temp_df_col_clean id_col col_name rs =
     map (\<lambda>(i, r). (i, merged_id id_col col_name r, key_of col_name r))
       (filter (\<lambda>(i, r). \<not> is_blank (r col_name)) (enumerate 0 rs))"

text \<open>Lines 181-187: \<^verbatim>\<open>pd.merge(..., left_on='composite_key', right_index=True,
  how='left')\<close>. A left join keeps the order of the left frame and yields one row for
  every entry of the lookup that bears the key, and one row with an absent
  \<^verbatim>\<open>avg_value\<close> when no entry does. A merged row is (index, identifier, avg_value).\<close>

definition merge_left :: "(nat \<times> cell \<times> string) list \<Rightarrow> lookup \<Rightarrow> (nat \<times> cell \<times> cell) list" where
  "merge_left left lk =
     concat (map (\<lambda>(i, idv, key).
        (case matches lk key of
           [] \<Rightarrow> [(i, idv, None)]
         | ms \<Rightarrow> map (\<lambda>(k, a). (i, idv, a)) ms)) left)"

text \<open>Line 210: \<^verbatim>\<open>chunk_df.loc[index, col_name] = values\<close>, the assignment of one
  value to each listed index of one column.\<close>

definition loc_assign :: "nat list \<Rightarrow> string \<Rightarrow> cell list \<Rightarrow> row list \<Rightarrow> row list" where
  "loc_assign idx col_name vals rs =
     map (\<lambda>(i, r). case map_of (zip idx vals) i of
                       None \<Rightarrow> r
                     | Some a \<Rightarrow> r(col_name := a)) (enumerate 0 rs)"

text \<open>
  Lines 145-210, the body of the loop over the target columns. The state is the rows of
  the chunk and the set of unmapped identifiers.

  When the column is the identifier column itself, line 147 selects it twice,
  \<^verbatim>\<open>blank_entries\<close> has the rows of the chunk, and \<^verbatim>\<open>blank_entries[id_column_data]\<close>
  is a frame, which has no \<^verbatim>\<open>tolist\<close>: line 155 raises \<^verbatim>\<open>AttributeError\<close> unless the
  chunk has no row. When the identifier column or the column is named \<^verbatim>\<open>avg_value\<close>,
  the merge renames the two columns of that name, and \<^verbatim>\<open>merged_df['avg_value']\<close> of
  line 191 raises \<^verbatim>\<open>KeyError\<close>. Line 205 assigns the merged values to the indices of
  \<^verbatim>\<open>temp_df_col_clean\<close> and raises \<^verbatim>\<open>ValueError\<close> when there are not as many values
  as indices. The test of line 173 is always false, the lookup being bound once step 1
  has not raised.
\<close>

definition process_column ::
  "string \<Rightarrow> lookup \<Rightarrow> string \<Rightarrow> row list \<times> cell list \<Rightarrow> error + row list \<times> cell list" where
  "process_column id_col lk col_name st =
     (case st of (rs, unmapped) \<Rightarrow>
       if col_name = id_col \<and> rs \<noteq> [] then Inl AttributeError
       else
       (let blank_entries = filter (\<lambda>r. is_blank (r col_name)) rs;
            unmapped1 = set_update unmapped (map (\<lambda>r. r id_col) blank_entries);
            clean = temp_df_col_clean id_col col_name rs
        in if clean = [] then Inr (rs, unmapped1)
           else if id_col = ''avg_value'' \<or> col_name = ''avg_value'' then Inl KeyError
           else
             (let merged_df = merge_left clean lk;
                  unmapped_entries_lookup_fail = filter (\<lambda>(i, idv, a). a = None) merged_df;
                  unmapped2 = set_update unmapped1
                                (map (\<lambda>(i, idv, a). idv) unmapped_entries_lookup_fail);
                  mapped_values_for_update = map (\<lambda>(i, idv, a). a) merged_df;
                  original_indices_for_update = map fst clean
              in if length mapped_values_for_update \<noteq> length original_indices_for_update
                 then Inl ValueError
                 else Inr (loc_assign original_indices_for_update col_name
                             mapped_values_for_update rs, unmapped2))))"

fun process_columns ::
  "string \<Rightarrow> lookup \<Rightarrow> string list \<Rightarrow> row list \<times> cell list \<Rightarrow> error + row list \<times> cell list" where
  "process_columns id_col lk [] st = Inr st"
| "process_columns id_col lk (col_name # cols) st =
     (case process_column id_col lk col_name st of
        Inl e \<Rightarrow> Inl e
      | Inr st' \<Rightarrow> process_columns id_col lk cols st')"

section \<open>Incremental writer and the run of 9_code_optimized.py\<close>

text \<open>A CSV file is the list of its records, a header or a data row; a file that
  does not exist is \<open>None\<close>. Both output files are removed when the script starts
  (lines 25-31).\<close>

datatype line = Header "string list" | Data "cell list"

type_synonym csv_file = "line list option"

text \<open>\<^verbatim>\<open>df.to_csv(path, index=False, mode=..., header=...)\<close>: mode \<^verbatim>\<open>'w'\<close>
  replaces the file, mode \<^verbatim>\<open>'a'\<close> appends to it.\<close>

definition to_csv :: "frame \<Rightarrow> bool \<Rightarrow> bool \<Rightarrow> csv_file \<Rightarrow> csv_file" where
  "to_csv df with_header appending f =
     Some ((if appending then (case f of None \<Rightarrow> [] | Some ls \<Rightarrow> ls) else [])
           @ (if with_header then [Header (columns df)] else [])
           @ map (\<lambda>r. Data (map r (columns df))) (rows df))"

definition data_rows :: "csv_file \<Rightarrow> cell list list" where
  "data_rows f =
     (case f of
        None \<Rightarrow> []
      | Some ls \<Rightarrow> concat (map (\<lambda>l. case l of Header h \<Rightarrow> [] | Data d \<Rightarrow> [d]) ls))"

definition header_lines :: "csv_file \<Rightarrow> string list list" where
  "header_lines f =
     (case f of
        None \<Rightarrow> []
      | Some ls \<Rightarrow> concat (map (\<lambda>l. case l of Header h \<Rightarrow> [h] | Data d \<Rightarrow> []) ls))"

datatype diagnostic =
    NoAmtColumns
  | IdNotInHeader string
  | IdNotInChunk string nat

record run_state =
  output_file :: csv_file
  nans_file :: csv_file
  is_first_chunk :: bool
  is_first_unmapped_chunk :: bool
  diagnostics :: "diagnostic list"

text \<open>Lines 217-234: the set of the chunk is written when it is not empty, with the
  header the first time.\<close>

definition write_unmapped :: "string \<Rightarrow> cell list \<Rightarrow> run_state \<Rightarrow> run_state" where
  "write_unmapped id_col unmapped s =
     (if unmapped = [] then s
      else
        (let chunk_unmapped_df =
               \<lparr>columns = [id_col], rows = map (\<lambda>v. (\<lambda>c. None)(id_col := v)) unmapped\<rparr>
         in if is_first_unmapped_chunk s
            then s\<lparr>nans_file := to_csv chunk_unmapped_df True False (nans_file s),
                   is_first_unmapped_chunk := False\<rparr>
            else s\<lparr>nans_file := to_csv chunk_unmapped_df False True (nans_file s)\<rparr>))"

text \<open>Lines 240-243: the identifier column is moved to the front.\<close>

definition id_first :: "string \<Rightarrow> string list \<Rightarrow> string list" where
  "id_first id_col cols =
     (if id_col \<in> set cols \<and> (case cols of [] \<Rightarrow> False | c # _ \<Rightarrow> c \<noteq> id_col)
      then id_col # filter (\<lambda>c. c \<noteq> id_col) cols
      else cols)"

text \<open>Lines 246-252.\<close>

definition write_chunk :: "frame \<Rightarrow> run_state \<Rightarrow> run_state" where
  "write_chunk chunk_df s =
     (if is_first_chunk s
      then s\<lparr>output_file := to_csv chunk_df True False (output_file s),
             is_first_chunk := False\<rparr>
      else s\<lparr>output_file := to_csv chunk_df False True (output_file s)\<rparr>)"

text \<open>Lines 124-252, the body of the loop over the chunks; \<open>i\<close> is the index that
  \<^verbatim>\<open>enumerate\<close> gives the chunk. A chunk without the identifier column is reported
  and skipped (lines 131-133); an exception raised while a column is processed leaves
  the loop.\<close>

definition process_chunk ::
  "string \<Rightarrow> string list \<Rightarrow> lookup \<Rightarrow> nat \<Rightarrow> frame \<Rightarrow> run_state \<Rightarrow> error + run_state" where
  "process_chunk id_col amt_columns_header lk i raw s =
     (let chunk_df = set_columns sanitize raw
      in if id_col \<notin> set (columns chunk_df)
         then Inr (s\<lparr>diagnostics := diagnostics s @ [IdNotInChunk id_col (i + 1)]\<rparr>)
         else
           (let amt_columns_chunk =
                  filter (\<lambda>col. col \<in> set (columns chunk_df)) amt_columns_header
            in case process_columns id_col lk amt_columns_chunk (rows chunk_df, []) of
                 Inl e \<Rightarrow> Inl e
               | Inr (rs, unmapped) \<Rightarrow>
                   Inr (write_chunk
                          \<lparr>columns = id_first id_col (columns chunk_df), rows = rs\<rparr>
                          (write_unmapped id_col unmapped s))))"

fun process_chunks ::
  "string \<Rightarrow> string list \<Rightarrow> lookup \<Rightarrow> nat \<Rightarrow> frame list \<Rightarrow> run_state \<Rightarrow> error + run_state" where
  "process_chunks id_col amt_columns_header lk i [] s = Inr s"
| "process_chunks id_col amt_columns_header lk i (raw # chunks) s =
     (case process_chunk id_col amt_columns_header lk i raw s of
        Inl e \<Rightarrow> Inl e
      | Inr s' \<Rightarrow> process_chunks id_col amt_columns_header lk (Suc i) chunks s')"

text \<open>Line 89: \<^verbatim>\<open>pd.read_csv(..., chunksize=chunk_size)\<close> cuts the data rows into
  chunks of \<^verbatim>\<open>chunk_size\<close> rows (the last one may be shorter), each with the columns of
  the file's header. For a file without a data row the reader yields one chunk without
  rows.\<close>

definition chunk_size :: nat where
  "chunk_size = 125000"

function split_rows :: "row list \<Rightarrow> row list list" where
  "split_rows rs =
     (if rs = [] then [] else take chunk_size rs # split_rows (drop chunk_size rs))"
  by pat_completeness auto
termination
  by (relation "measure length") (auto simp: chunk_size_def)

declare split_rows.simps [simp del]

definition csv_reader :: "frame \<Rightarrow> frame list" where
  "csv_reader main =
     (if rows main = [] then [\<lparr>columns = columns main, rows = []\<rparr>]
      else map (\<lambda>rs. \<lparr>columns = columns main, rows = rs\<rparr>) (split_rows (rows main)))"

text \<open>Lines 272-280: the report with nothing but its header, when no chunk wrote
  to it.\<close>

definition final_check :: "string \<Rightarrow> run_state \<Rightarrow> run_state" where
  "final_check id_col s =
     (if is_first_unmapped_chunk s
      then s\<lparr>nans_file := to_csv \<lparr>columns = [id_col], rows = []\<rparr> True False (nans_file s)\<rparr>
      else s)"

text \<open>Lines 108-112: the two warnings after the header has been read.\<close>

definition header_warnings :: "string list \<Rightarrow> string \<Rightarrow> diagnostic list" where
  "header_warnings all_data_cols id_col =
     (if amt_columns all_data_cols = [] then [NoAmtColumns] else [])
     @ (if id_col \<notin> set all_data_cols then [IdNotInHeader id_col] else [])"

text \<open>Lines 25-31, 84 and 92: no output file, both flags set.\<close>

definition initial_state :: "string list \<Rightarrow> string \<Rightarrow> run_state" where
  "initial_state all_data_cols id_col =
     \<lparr>output_file = None, nans_file = None, is_first_chunk = True,
      is_first_unmapped_chunk = True,
      diagnostics = header_warnings all_data_cols id_col\<rparr>"

text \<open>
  The whole script. A file that is not there is \<open>None\<close>: \<^verbatim>\<open>read_excel\<close> and
  \<^verbatim>\<open>read_csv\<close> raise \<^verbatim>\<open>FileNotFoundError\<close>, and every \<^verbatim>\<open>except\<close> clause of
  the script raises the exception again.
\<close>

definition run :: "frame option \<Rightarrow> frame option \<Rightarrow> error + run_state" where
  "run mapping_file main_data_file =
     (case load_mapping mapping_file of
        Inl e \<Rightarrow> Inl e
      | Inr lk \<Rightarrow>
          (case main_data_file of
             None \<Rightarrow> Inl FileNotFoundError
           | Some main \<Rightarrow>
               (case id_column_data (columns main) of
                  Inl e \<Rightarrow> Inl e
                | Inr id_col \<Rightarrow>
                    (let all_data_cols = map sanitize (columns main)
                     in case process_chunks id_col (amt_columns all_data_cols) lk 0
                               (csv_reader main) (initial_state all_data_cols id_col) of
                          Inl e \<Rightarrow> Inl e
                        | Inr s \<Rightarrow> Inr (final_check id_col s)))))"

section \<open>The SQL variant, code_5.py\<close>

text \<open>
  The main file is imported into the table \<^verbatim>\<open>main_data_table\<close> with sanitized
  column names, the lookup is the table \<^verbatim>\<open>mapping_midtable\<close>, and the unmapped
  occurrences are collected in the table \<^verbatim>\<open>temp_unmapped_values\<close> with the columns
  \<^verbatim>\<open>original_id\<close>, \<^verbatim>\<open>original_value\<close> and \<^verbatim>\<open>column_name\<close>. In SQL a
  concatenation with \<^verbatim>\<open>NULL\<close> is \<^verbatim>\<open>NULL\<close> and equals nothing.
\<close>

type_synonym unmapped_value = "cell \<times> cell \<times> string"

text \<open>Lines 191-204, \<^verbatim>\<open>insert_unmapped_sql\<close>: the rows whose value is neither
  \<^verbatim>\<open>NULL\<close> nor empty and whose key no entry of the mapping table bears.\<close>

definition insert_unmapped_sql :: "string \<Rightarrow> string \<Rightarrow> lookup \<Rightarrow> row list \<Rightarrow> unmapped_value list" where
  "insert_unmapped_sql id_col col_name lk rs =
     map (\<lambda>r. (r id_col, r col_name, col_name))
       (filter (\<lambda>r. r col_name \<noteq> None \<and> r col_name \<noteq> Some []
                    \<and> matches lk (key_of col_name r) = []) rs)"

text \<open>Lines 215-227, \<^verbatim>\<open>update_sql\<close> on one row: the row is updated where an entry
  with its key exists, to the value of the scalar subquery, which is the
  \<^verbatim>\<open>avg_value\<close> of the first row that SQLite finds (the entries of one key are met in
  the order of their insertion).\<close>

definition update_sql :: "string \<Rightarrow> lookup \<Rightarrow> row \<Rightarrow> row" where
  "update_sql col_name lk r =
     (case r col_name of
        None \<Rightarrow> r
      | Some v \<Rightarrow>
          (case matches lk (key_of col_name r) of
             [] \<Rightarrow> r
           | (k, a) # _ \<Rightarrow> r(col_name := a)))"

text \<open>Lines 185-230: the loop over the target columns.\<close>

fun update_amt_columns ::
  "string \<Rightarrow> lookup \<Rightarrow> string list \<Rightarrow> row list \<times> unmapped_value list
     \<Rightarrow> row list \<times> unmapped_value list" where
  "update_amt_columns id_col lk [] st = st"
| "update_amt_columns id_col lk (col_name # cols) st =
     (case st of (rs, temp_unmapped) \<Rightarrow>
        update_amt_columns id_col lk cols
          (map (update_sql col_name lk) rs,
           temp_unmapped @ insert_unmapped_sql id_col col_name lk rs))"

record sql_result =
  final_output :: csv_file
  unmapped_output :: csv_file

text \<open>
  The whole script; \<open>old_unmapped\<close> is the report file as it is before the run (the
  script does not remove it). The chunks of the main file are appended to one table, so
  the table holds the rows of the file. Without a target column step 4 is left out, the
  table of unmapped values is never created, and the exception of step 6 is caught
  (lines 276-279). Step 6 writes the report only when the table has a row
  (lines 270-274).
\<close>

definition run_sql :: "frame option \<Rightarrow> frame option \<Rightarrow> csv_file \<Rightarrow> error + sql_result" where
  "run_sql mapping_file main_data_file old_unmapped =
     (case load_mapping mapping_file of
        Inl e \<Rightarrow> Inl e
      | Inr lk \<Rightarrow>
          (case main_data_file of
             None \<Rightarrow> Inl FileNotFoundError
           | Some main \<Rightarrow>
               (let main_data_table = set_columns sanitize main;
                    main_data_cols = columns main_data_table
                in case pick_id main_data_cols of
                     Inl e \<Rightarrow> Inl e
                   | Inr id_col \<Rightarrow>
                       (let amt = amt_columns main_data_cols;
                            (rs, temp_unmapped) =
                               update_amt_columns id_col lk amt (rows main_data_table, []);
                            out_cols = map (\<lambda>c. if c = ''original_id'' then id_col else c)
                                         main_data_cols
                        in Inr \<lparr>final_output =
                                  Some (Header out_cols # map (\<lambda>r. Data (map r main_data_cols)) rs),
                                unmapped_output =
                                  (if temp_unmapped = [] then old_unmapped
                                   else Some (Header [''original_id'', ''original_value'',
                                                      ''column_name'']
                                              # map (\<lambda>(i, v, c). Data [i, v, Some c])
                                                  temp_unmapped))\<rparr>))))"

section \<open>Notions used to state the properties\<close>

text \<open>A cell fails when it is blank or when its key finds no average value: these
  are the cells for which lines 155 and 194 record the identifier of the row.\<close>

definition fails :: "lookup \<Rightarrow> string \<Rightarrow> row \<Rightarrow> bool" where
  "fails lk c r \<longleftrightarrow> is_blank (r c) \<or> avg_of lk (key_of c r) = None"

text \<open>What is recorded for a cell that fails: line 155 takes the identifier of a blank
  cell from the chunk, line 194 that of an unmatched cell from the merged frame.\<close>

definition recorded :: "string \<Rightarrow> string \<Rightarrow> row \<Rightarrow> cell" where
  "recorded id_col c r = (if is_blank (r c) then r id_col else merged_id id_col c r)"

definition nonblank_idx :: "string \<Rightarrow> row list \<Rightarrow> nat list" where
  "nonblank_idx c rs = filter (\<lambda>i. \<not> is_blank ((rs ! i) c)) [0..<length rs]"

text \<open>The rows handed to \<^verbatim>\<open>pd.merge\<close> while the columns of a chunk are processed, as
  (column, index, key): the left frame of the merge of each column, taken from the state
  in which the loop reaches that column.\<close>

fun merge_requests ::
  "string \<Rightarrow> lookup \<Rightarrow> string list \<Rightarrow> row list \<times> cell list \<Rightarrow> (string \<times> nat \<times> string) list" where
  "merge_requests id_col lk [] st = []"
| "merge_requests id_col lk (col_name # cols) st =
     map (\<lambda>(i, idv, key). (col_name, i, key)) (temp_df_col_clean id_col col_name (fst st))
     @ (case process_column id_col lk col_name st of
          Inl e \<Rightarrow> []
        | Inr st' \<Rightarrow> merge_requests id_col lk cols st')"

text \<open>The set of unmapped identifiers that a chunk hands to the report writer: empty
  for a chunk that is skipped.\<close>

definition chunk_unmapped :: "string \<Rightarrow> string list \<Rightarrow> lookup \<Rightarrow> frame \<Rightarrow> cell list" where
  "chunk_unmapped id_col amt_columns_header lk raw =
     (let chunk_df = set_columns sanitize raw
      in if id_col \<notin> set (columns chunk_df) then []
         else (case process_columns id_col lk
                      (filter (\<lambda>col. col \<in> set (columns chunk_df)) amt_columns_header)
                      (rows chunk_df, []) of
                 Inl e \<Rightarrow> []
               | Inr (rs, unmapped) \<Rightarrow> unmapped))"

text \<open>The chunks that lines 131-133 skip.\<close>

definition skipped :: "string \<Rightarrow> frame \<Rightarrow> bool" where
  "skipped id_col raw \<longleftrightarrow> id_col \<notin> set (columns (set_columns sanitize raw))"

definition count_rows :: "frame list \<Rightarrow> nat" where
  "count_rows chunks = sum_list (map (\<lambda>df. length (rows df)) chunks)"

section \<open>Example data\<close>

text \<open>A lookup with the one key \<^verbatim>\<open>amt_x_5\<close>, a row whose cell hits it, and a row
  with two cells that miss.\<close>

definition ex_lookup :: lookup where
  "ex_lookup = [(''amt_x_5'', Some ''10.2'')]"

definition ex_row1 :: row where
  "ex_row1 = (\<lambda>c. None)(''id'' := Some ''1'', ''amt_x'' := Some ''5'')"

definition ex_row7 :: row where
  "ex_row7 = (\<lambda>c. None)(''id'' := Some ''7'', ''amt_x'' := Some ''8'', ''amt_y'' := Some ''9'')"

text \<open>A mapping source with two rows of the same composite key, and its lookup.\<close>

definition ex_mapping_dup :: frame where
  "ex_mapping_dup =
     \<lparr>columns = [''Amt Senf'', ''Cat No'', ''Avg Value''],
      rows = [(\<lambda>c. None)(''Amt Senf'' := Some ''amt_x'', ''Cat No'' := Some ''5'',
                            ''Avg Value'' := Some ''10.2''),
              (\<lambda>c. None)(''Amt Senf'' := Some ''amt_x'', ''Cat No'' := Some ''5'',
                            ''Avg Value'' := Some ''99'')]\<rparr>"

definition ex_lookup_dup :: lookup where
  "ex_lookup_dup = [(''amt_x_5'', Some ''10.2''), (''amt_x_5'', Some ''99'')]"

text \<open>A mapping source whose rows lack the sender code, the category number, or both,
  and its lookup.\<close>

definition ex_mapping_absent :: frame where
  "ex_mapping_absent =
     \<lparr>columns = [''Amt Senf'', ''Cat No'', ''Avg Value''],
      rows = [(\<lambda>c. None)(''Cat No'' := Some ''CAT1'', ''Avg Value'' := Some ''1.5''),
              (\<lambda>c. None)(''Amt Senf'' := Some ''amt_x_'', ''Avg Value'' := Some ''7.5''),
              (\<lambda>c. None)(''Avg Value'' := Some ''3'')]\<rparr>"

definition ex_lookup_absent :: lookup where
  "ex_lookup_absent = [(''_CAT1'', Some ''1.5''), (''amt_x__'', Some ''7.5''), (''_'', Some ''3'')]"

text \<open>A mapping source with one row, and a main file whose only cell hits it.\<close>

definition ex_mapping :: frame where
  "ex_mapping =
     \<lparr>columns = [''Amt Senf'', ''Cat No'', ''Avg Value''],
      rows = [(\<lambda>c. None)(''Amt Senf'' := Some ''amt_x'', ''Cat No'' := Some ''5'',
                            ''Avg Value'' := Some ''10.2'')]\<rparr>"

definition ex_main :: frame where
  "ex_main = \<lparr>columns = [''id'', ''amt_x''], rows = [ex_row1]\<rparr>"

text \<open>A chunk without the column \<^verbatim>\<open>id\<close>.\<close>

definition ex_chunk_no_id :: frame where
  "ex_chunk_no_id =
     \<lparr>columns = [''key'', ''amt_x''],
      rows = [(\<lambda>c. None)(''key'' := Some ''k1'', ''amt_x'' := Some ''8''),
              (\<lambda>c. None)(''key'' := Some ''k2'', ''amt_x'' := Some ''5'')]\<rparr>"

text \<open>A main file whose first column name keeps two underscores when it is
  sanitized.\<close>

definition ex_main_underscores :: frame where
  "ex_main_underscores =
     \<lparr>columns = [''a_-_b'', ''amt_x''],
      rows = [(\<lambda>c. None)(''a_-_b'' := Some ''1'', ''amt_x'' := Some ''5'')]\<rparr>"

section \<open>Auxiliary facts about the engine\<close>

lemma set_set_update: "set (set_update acc xs) = set acc \<union> set xs"
  unfolding set_update_def by (induction xs arbitrary: acc) auto

lemma distinct_set_update: "distinct acc \<Longrightarrow> distinct (set_update acc xs)"
  unfolding set_update_def by (induction xs arbitrary: acc) auto

lemma length_loc_assign: "length (loc_assign idx c vals rs) = length rs"
  by (simp add: loc_assign_def)

lemma nth_loc_assign:
  "i < length rs \<Longrightarrow>
   loc_assign idx c vals rs ! i =
     (case map_of (zip idx vals) i of None \<Rightarrow> rs ! i | Some a \<Rightarrow> (rs ! i)(c := a))"
  by (simp add: loc_assign_def nth_enumerate_eq)

lemma enumerate_nth: "enumerate 0 rs = map (\<lambda>i. (i, rs ! i)) [0..<length rs]"
  by (rule nth_equalityI) (simp_all add: nth_enumerate_eq)

lemma clean_eq:
  "temp_df_col_clean id_col c rs =
     map (\<lambda>i. (i, merged_id id_col c (rs ! i), key_of c (rs ! i)))
       (filter (\<lambda>i. \<not> is_blank ((rs ! i) c)) [0..<length rs])"
  unfolding temp_df_col_clean_def enumerate_nth
  by (simp add: filter_map comp_def)

lemma length_merge_ge: "length left \<le> length (merge_left left lk)"
  unfolding merge_left_def
  by (induction left) (auto split: list.splits)

lemma merge_single:
  "length (merge_left left lk) = length left \<Longrightarrow>
   merge_left left lk = map (\<lambda>(i, idv, key). (i, idv, avg_of lk key)) left
   \<and> (\<forall>(i, idv, key) \<in> set left. length (matches lk key) \<le> 1)"
proof (induction left)
  case Nil
  then show ?case by (simp add: merge_left_def)
next
  case (Cons x xs)
  obtain i idv key where x: "x = (i, idv, key)" by (cases x)
  let ?h = "case matches lk key of [] \<Rightarrow> [(i, idv, None)] | ms \<Rightarrow> map (\<lambda>(k, a). (i, idv, a)) ms"
  have split: "merge_left (x # xs) lk = ?h @ merge_left xs lk"
    by (simp add: merge_left_def x matches_def)
  have h1: "1 \<le> length ?h" by (cases "matches lk key") auto
  have ge: "length xs \<le> length (merge_left xs lk)" by (rule length_merge_ge)
  from Cons.prems split have tot: "length ?h + length (merge_left xs lk) = Suc (length xs)"
    by simp
  with h1 ge have lh: "length ?h = 1" and lx: "length (merge_left xs lk) = length xs"
    by arith+
  from lh have m1: "length (matches lk key) \<le> 1" by (cases "matches lk key") auto
  from lh have hv: "?h = [(i, idv, avg_of lk key)]"
    by (cases "matches lk key") (auto simp: avg_of_def)
  from Cons.IH[OF lx] hv split m1 show ?case by (simp add: x)
qed


lemma map_of_idx:
  "map_of (zip xs (map h xs)) i = (if i \<in> set xs then Some (h i) else None)"
  by (induction xs) auto

lemma process_column_Inr:
  assumes "process_column id_col lk c (rs, unm) = Inr (rs', unm')"
  shows "length rs' = length rs"
    and "\<And>i. i < length rs \<Longrightarrow>
           rs' ! i = (if is_blank ((rs ! i) c) then rs ! i
                      else (rs ! i)(c := avg_of lk (key_of c (rs ! i))))"
    and "set unm' = set unm \<union>
           {recorded id_col c (rs ! i) | i. i < length rs \<and> fails lk c (rs ! i)}"
    and "distinct unm \<Longrightarrow> distinct unm'"
    and "\<And>i. i < length rs \<Longrightarrow> \<not> is_blank ((rs ! i) c) \<Longrightarrow>
           length (matches lk (key_of c (rs ! i))) \<le> 1"
    and "c = id_col \<Longrightarrow> rs = []"
proof -
  let ?clean = "temp_df_col_clean id_col c rs"
  let ?idx = "nonblank_idx c rs"
  let ?u1 = "set_update unm (map (\<lambda>r. r id_col) (filter (\<lambda>r. is_blank (r c)) rs))"
  show "c = id_col \<Longrightarrow> rs = []"
    using assms by (auto simp: process_column_def split: if_splits)
  have clean: "?clean = map (\<lambda>i. (i, merged_id id_col c (rs ! i), key_of c (rs ! i))) ?idx"
    by (simp add: clean_eq nonblank_idx_def)
  have blank_ids: "set (map (\<lambda>r. r id_col) (filter (\<lambda>r. is_blank (r c)) rs))
      = {(rs ! i) id_col | i. i < length rs \<and> is_blank ((rs ! i) c)}"
    by (auto simp: in_set_conv_nth)
  have idx_set: "set ?idx = {i. i < length rs \<and> \<not> is_blank ((rs ! i) c)}"
    by (auto simp: nonblank_idx_def)
  show "length rs' = length rs"
    using assms by (auto simp: process_column_def Let_def length_loc_assign split: if_splits)
  show "distinct unm \<Longrightarrow> distinct unm'"
    using assms by (auto simp: process_column_def Let_def distinct_set_update split: if_splits)
  consider (empty) "?clean = []" | (merge) "?clean \<noteq> []" by blast
  then have main: "(\<forall>i < length rs. rs' ! i = (if is_blank ((rs ! i) c) then rs ! i
                      else (rs ! i)(c := avg_of lk (key_of c (rs ! i)))))
     \<and> set unm' = set unm \<union>
           {recorded id_col c (rs ! i) | i. i < length rs \<and> fails lk c (rs ! i)}
     \<and> (\<forall>i < length rs. \<not> is_blank ((rs ! i) c) \<longrightarrow>
           length (matches lk (key_of c (rs ! i))) \<le> 1)"
  proof cases
    case empty
    with clean have "?idx = []" by simp
    with idx_set have allblank: "\<forall>i < length rs. is_blank ((rs ! i) c)" by auto
    from assms empty have "rs' = rs" "unm' = ?u1"
      by (auto simp: process_column_def Let_def split: if_splits)
    with allblank blank_ids show ?thesis
      by (auto simp: set_set_update fails_def recorded_def)
  next
    case merge
    let ?merged = "merge_left ?clean lk"
    from assms merge have len: "length ?merged = length ?clean"
      by (auto simp: process_column_def Let_def split: if_splits)
    from merge_single[OF len]
    have merged: "?merged = map (\<lambda>(i, idv, key). (i, idv, avg_of lk key)) ?clean"
      and single: "\<forall>(i, idv, key) \<in> set ?clean. length (matches lk key) \<le> 1"
      by auto
    have merged': "?merged = map (\<lambda>i. (i, merged_id id_col c (rs ! i), avg_of lk (key_of c (rs ! i)))) ?idx"
      using merged unfolding clean by (simp add: comp_def)
    have fsts: "map fst ?clean = ?idx"
      unfolding clean by (simp add: comp_def)
    have vals: "map (\<lambda>(i, idv, a). a) ?merged = map (\<lambda>i. avg_of lk (key_of c (rs ! i))) ?idx"
      by (simp add: merged' comp_def)
    have fail_ids: "set (map (\<lambda>(i, idv, a). idv) (filter (\<lambda>(i, idv, a). a = None) ?merged))
        = {merged_id id_col c (rs ! i) | i. i < length rs \<and> \<not> is_blank ((rs ! i) c)
              \<and> avg_of lk (key_of c (rs ! i)) = None}"
      unfolding merged' using idx_set by (auto simp: image_iff) 
    from assms merge len
    have rs': "rs' = loc_assign (map fst ?clean) c (map (\<lambda>(i, idv, a). a) ?merged) rs"
      and unm': "unm' = set_update ?u1
            (map (\<lambda>(i, idv, a). idv) (filter (\<lambda>(i, idv, a). a = None) ?merged))"
      by (auto simp: process_column_def Let_def split: if_splits)
    have cells: "\<forall>i < length rs. rs' ! i = (if is_blank ((rs ! i) c) then rs ! i
                      else (rs ! i)(c := avg_of lk (key_of c (rs ! i))))"
      unfolding rs' vals fsts using idx_set
      by (simp add: nth_loc_assign map_of_idx)
    have ids: "set unm' = set unm \<union>
           {recorded id_col c (rs ! i) | i. i < length rs \<and> fails lk c (rs ! i)}"
      unfolding unm' set_set_update fail_ids blank_ids
      by (auto simp: fails_def recorded_def)
    have one: "\<forall>i < length rs. \<not> is_blank ((rs ! i) c) \<longrightarrow>
           length (matches lk (key_of c (rs ! i))) \<le> 1"
      using single idx_set unfolding clean by auto
    from cells ids one show ?thesis by blast
  qed
  from main show "\<And>i. i < length rs \<Longrightarrow>
           rs' ! i = (if is_blank ((rs ! i) c) then rs ! i
                      else (rs ! i)(c := avg_of lk (key_of c (rs ! i))))" by blast
  from main show "set unm' = set unm \<union>
           {recorded id_col c (rs ! i) | i. i < length rs \<and> fails lk c (rs ! i)}" by blast
  from main show "\<And>i. i < length rs \<Longrightarrow> \<not> is_blank ((rs ! i) c) \<Longrightarrow>
           length (matches lk (key_of c (rs ! i))) \<le> 1" by blast
qed


lemma key_of_cong: "r c = r' c \<Longrightarrow> key_of c r = key_of c r'"
  by (simp add: key_of_def)

lemma process_columns_Inr_all:
  "process_columns id_col lk cols (rs, unm) = Inr (rs', unm') \<Longrightarrow>
   distinct cols \<Longrightarrow> id_col \<notin> set cols \<Longrightarrow>
   length rs' = length rs
   \<and> (\<forall>i < length rs. \<forall>c. (rs' ! i) c =
          (if c \<in> set cols \<and> \<not> is_blank ((rs ! i) c)
           then avg_of lk (key_of c (rs ! i)) else (rs ! i) c))
   \<and> set unm' = set unm \<union>
         {recorded id_col c (rs ! i) | i c. i < length rs \<and> c \<in> set cols \<and> fails lk c (rs ! i)}
   \<and> (distinct unm \<longrightarrow> distinct unm')
   \<and> (\<forall>i < length rs. \<forall>c \<in> set cols. \<not> is_blank ((rs ! i) c) \<longrightarrow>
          length (matches lk (key_of c (rs ! i))) \<le> 1)"
proof (induction cols arbitrary: rs unm)
  case Nil
  then show ?case by simp
next
  case (Cons c0 cols)
  from Cons.prems(1) obtain rs1 unm1 where
    step: "process_column id_col lk c0 (rs, unm) = Inr (rs1, unm1)"
    and rest: "process_columns id_col lk cols (rs1, unm1) = Inr (rs', unm')"
    by (auto split: sum.splits)
  from Cons.prems have dist: "distinct cols" and c0: "c0 \<notin> set cols"
    and idc: "id_col \<notin> set cols" and idc0: "id_col \<noteq> c0" by auto
  note col = process_column_Inr[OF step]
  note ih = Cons.IH[OF rest dist idc]
  have len1: "length rs1 = length rs" by (rule col(1))
  have other: "(rs1 ! i) c = (rs ! i) c" if "i < length rs" "c \<noteq> c0" for i c
    using col(2)[OF that(1)] that(2) by (simp split: if_splits)
  have same: "(rs1 ! i) c0 = (if is_blank ((rs ! i) c0) then (rs ! i) c0
                 else avg_of lk (key_of c0 (rs ! i)))" if "i < length rs" for i
    using col(2)[OF that] by (simp split: if_splits)
  have fails_eq: "fails lk c (rs1 ! i) = fails lk c (rs ! i)" if "i < length rs" "c \<in> set cols" for i c
  proof -
    from that c0 have "c \<noteq> c0" by auto
    with other[OF that(1)] have "(rs1 ! i) c = (rs ! i) c" by simp
    then show ?thesis by (simp add: fails_def key_of_def)
  qed
  have id_eq: "recorded id_col c (rs1 ! i) = recorded id_col c (rs ! i)"
    if "i < length rs" "c \<in> set cols" for i c
  proof -
    from that c0 have "c \<noteq> c0" by auto
    with other[OF that(1)] have "(rs1 ! i) c = (rs ! i) c" by simp
    moreover from other[OF that(1) idc0] have "(rs1 ! i) id_col = (rs ! i) id_col" .
    ultimately show ?thesis by (simp add: recorded_def merged_id_def key_of_def)
  qed
  have p1: "length rs' = length rs" using ih len1 by simp
  have p2: "\<forall>i < length rs. \<forall>c. (rs' ! i) c =
          (if c \<in> set (c0 # cols) \<and> \<not> is_blank ((rs ! i) c)
           then avg_of lk (key_of c (rs ! i)) else (rs ! i) c)"
  proof (intro allI impI)
    fix i c assume i: "i < length rs"
    with ih len1 have r: "(rs' ! i) c =
          (if c \<in> set cols \<and> \<not> is_blank ((rs1 ! i) c)
           then avg_of lk (key_of c (rs1 ! i)) else (rs1 ! i) c)" by simp
    show "(rs' ! i) c =
          (if c \<in> set (c0 # cols) \<and> \<not> is_blank ((rs ! i) c)
           then avg_of lk (key_of c (rs ! i)) else (rs ! i) c)"
    proof (cases "c = c0")
      case True
      with r c0 same[OF i] show ?thesis by simp
    next
      case False
      with other[OF i False] r show ?thesis by (simp add: key_of_def)
    qed
  qed
  have s1: "set unm1 = set unm \<union>
         {recorded id_col c0 (rs ! i) | i. i < length rs \<and> fails lk c0 (rs ! i)}"
    using col(3) by simp
  have s2: "set unm' = set unm1 \<union>
         {recorded id_col c (rs1 ! i) | i c. i < length rs1 \<and> c \<in> set cols \<and> fails lk c (rs1 ! i)}"
    using ih by simp
  have s2': "{recorded id_col c (rs1 ! i) | i c. i < length rs1 \<and> c \<in> set cols \<and> fails lk c (rs1 ! i)}
       = {recorded id_col c (rs ! i) | i c. i < length rs \<and> c \<in> set cols \<and> fails lk c (rs ! i)}"
    using fails_eq id_eq len1 by auto metis+
  have p3: "set unm' = set unm \<union>
         {recorded id_col c (rs ! i) | i c. i < length rs \<and> c \<in> set (c0 # cols) \<and> fails lk c (rs ! i)}"
    unfolding s2 s2' s1 by auto
  have p4: "distinct unm \<longrightarrow> distinct unm'"
    using col(4) ih by simp
  have p5: "\<forall>i < length rs. \<forall>c \<in> set (c0 # cols). \<not> is_blank ((rs ! i) c) \<longrightarrow>
          length (matches lk (key_of c (rs ! i))) \<le> 1"
  proof (intro allI impI ballI)
    fix i c assume i: "i < length rs" and c: "c \<in> set (c0 # cols)"
      and nb: "\<not> is_blank ((rs ! i) c)"
    show "length (matches lk (key_of c (rs ! i))) \<le> 1"
    proof (cases "c = c0")
      case True
      with col(5)[OF i] nb show ?thesis by simp
    next
      case False
      with c have cc: "c \<in> set cols" by simp
      from other[OF i False] have e: "(rs1 ! i) c = (rs ! i) c" .
      from ih i len1 cc nb e have "length (matches lk (key_of c (rs1 ! i))) \<le> 1" by simp
      with e show ?thesis by (simp add: key_of_def)
    qed
  qed
  from p1 p2 p3 p4 p5 show ?case by blast
qed

lemma merge_left_Cons:
  "merge_left ((i, idv, key) # xs) lk =
     (case matches lk key of [] \<Rightarrow> [(i, idv, None)] | ms \<Rightarrow> map (\<lambda>(k, a). (i, idv, a)) ms)
     @ merge_left xs lk"
  by (simp add: merge_left_def)

lemma merge_dup:
  "(i, idv, key) \<in> set left \<Longrightarrow> 2 \<le> length (matches lk key) \<Longrightarrow>
   length left < length (merge_left left lk)"
proof (induction left)
  case Nil
  then show ?case by simp
next
  case (Cons x xs)
  obtain j jd k where x: "x = (j, jd, k)" by (cases x)
  have ge: "length xs \<le> length (merge_left xs lk)" by (rule length_merge_ge)
  have h1: "1 \<le> length (case matches lk k of [] \<Rightarrow> [(j, jd, None)]
                          | ms \<Rightarrow> map (\<lambda>(k, a). (j, jd, a)) ms)"
    by (cases "matches lk k") auto
  show ?case
  proof (cases "x = (i, idv, key)")
    case True
    with Cons.prems(2) x have "2 \<le> length (case matches lk k of [] \<Rightarrow> [(j, jd, None)]
                          | ms \<Rightarrow> map (\<lambda>(k, a). (j, jd, a)) ms)"
      by (cases "matches lk k") auto
    with ge show ?thesis by (simp add: x merge_left_Cons)
  next
    case False
    with Cons.prems have "(i, idv, key) \<in> set xs" by simp
    from Cons.IH[OF this Cons.prems(2)] h1 show ?thesis
      by (simp add: x merge_left_Cons)
  qed
qed

lemma merge_unique:
  "\<forall>(i, idv, key) \<in> set left. length (matches lk key) \<le> 1 \<Longrightarrow>
   length (merge_left left lk) = length left"
proof (induction left)
  case Nil
  then show ?case by (simp add: merge_left_def)
next
  case (Cons x xs)
  obtain j jd k where x: "x = (j, jd, k)" by (cases x)
  from Cons.prems x have "length (matches lk k) \<le> 1" by simp
  then have "length (case matches lk k of [] \<Rightarrow> [(j, jd, None)]
                          | ms \<Rightarrow> map (\<lambda>(k, a). (j, jd, a)) ms) = 1"
    by (cases "matches lk k") auto
  with Cons show ?case by (simp add: x merge_left_Cons)
qed

lemma clean_set:
  "set (temp_df_col_clean id_col c rs) =
     {(i, merged_id id_col c (rs ! i), key_of c (rs ! i)) | i.
        i < length rs \<and> \<not> is_blank ((rs ! i) c)}"
  unfolding clean_eq by auto

text \<open>With an identifier column that is not the column and no column named
  \<^verbatim>\<open>avg_value\<close> in play, the only exception of the loop body is the one of line 205.\<close>

lemma process_column_error:
  "process_column id_col lk c st = Inl e \<Longrightarrow> c \<noteq> id_col \<Longrightarrow> id_col \<noteq> ''avg_value'' \<Longrightarrow>
   c \<noteq> ''avg_value'' \<Longrightarrow> e = ValueError"
  by (cases st) (auto simp: process_column_def Let_def split: if_splits)

lemma process_column_dup:
  assumes "i < length rs" "\<not> is_blank ((rs ! i) c)"
    and "2 \<le> length (matches lk (key_of c (rs ! i)))"
    and "c \<noteq> id_col" "id_col \<noteq> ''avg_value''" "c \<noteq> ''avg_value''"
  shows "process_column id_col lk c (rs, unm) = Inl ValueError"
proof -
  let ?clean = "temp_df_col_clean id_col c rs"
  from assms(1,2) have mem: "(i, merged_id id_col c (rs ! i), key_of c (rs ! i)) \<in> set ?clean"
    unfolding clean_set by blast
  then have ne: "?clean \<noteq> []" by auto
  from merge_dup[OF mem assms(3)] have "length (merge_left ?clean lk) \<noteq> length ?clean"
    by simp
  with ne assms(4,5,6) show ?thesis by (simp add: process_column_def Let_def)
qed

lemma process_column_ok:
  assumes "\<forall>i < length rs. \<not> is_blank ((rs ! i) c) \<longrightarrow>
             length (matches lk (key_of c (rs ! i))) \<le> 1"
    and "c \<noteq> id_col" "id_col \<noteq> ''avg_value''" "c \<noteq> ''avg_value''"
  shows "\<exists>st'. process_column id_col lk c (rs, unm) = Inr st'"
proof -
  let ?clean = "temp_df_col_clean id_col c rs"
  from assms(1) have "\<forall>(i, idv, key) \<in> set ?clean. length (matches lk key) \<le> 1"
    unfolding clean_set by auto
  from merge_unique[OF this] assms(2,3,4) show ?thesis
    by (simp add: process_column_def Let_def)
qed

lemma matches_distinct: "distinct (map fst lk) \<Longrightarrow> length (matches lk key) \<le> 1"
proof (induction lk)
  case Nil
  then show ?case by (simp add: matches_def)
next
  case (Cons x xs)
  obtain k a where x: "x = (k, a)" by (cases x)
  show ?case
  proof (cases "k = key")
    case True
    with Cons.prems x have "key \<notin> fst ` set xs" by simp
    then have "matches xs key = []" by (auto simp: matches_def filter_empty_conv image_iff)
    with True x show ?thesis by (simp add: matches_def)
  next
    case False
    with Cons x show ?thesis by (simp add: matches_def)
  qed
qed

lemma process_columns_error:
  "process_columns id_col lk cols st = Inl e \<Longrightarrow> id_col \<notin> set cols \<Longrightarrow>
   id_col \<noteq> ''avg_value'' \<Longrightarrow> ''avg_value'' \<notin> set cols \<Longrightarrow> e = ValueError"
proof (induction cols arbitrary: st)
  case Nil
  then show ?case by simp
next
  case (Cons c cols)
  show ?case
  proof (cases "process_column id_col lk c st")
    case (Inl e')
    with Cons.prems(1) have "e' = e" by simp
    with Inl Cons.prems(2,3,4) process_column_error[of id_col lk c st e] show ?thesis by auto
  next
    case (Inr st')
    with Cons.prems(1) have "process_columns id_col lk cols st' = Inl e" by simp
    from Cons.IH[OF this] Cons.prems(2,3,4) show ?thesis by simp
  qed
qed

lemma process_columns_total:
  "distinct (map fst lk) \<Longrightarrow> id_col \<notin> set cols \<Longrightarrow> id_col \<noteq> ''avg_value'' \<Longrightarrow>
   ''avg_value'' \<notin> set cols \<Longrightarrow> \<exists>st'. process_columns id_col lk cols st = Inr st'"
proof (induction cols arbitrary: st)
  case Nil
  then show ?case by simp
next
  case (Cons c cols)
  obtain rs unm where st: "st = (rs, unm)" by (cases st)
  from matches_distinct[OF Cons.prems(1)]
  have "\<forall>i < length rs. \<not> is_blank ((rs ! i) c) \<longrightarrow>
             length (matches lk (key_of c (rs ! i))) \<le> 1" by simp
  from process_column_ok[OF this, of id_col unm] Cons.prems(2,3,4) obtain st' where
    "process_column id_col lk c (rs, unm) = Inr st'" by auto
  with Cons.IH[OF Cons.prems(1), of st'] Cons.prems(2,3,4) st show ?case by simp
qed

lemma process_columns_frame:
  "process_columns id_col lk cols (rs, unm) = Inr (rs', unm') \<Longrightarrow>
   length rs' = length rs
   \<and> (\<forall>i < length rs. \<forall>c. c \<notin> set cols \<longrightarrow> (rs' ! i) c = (rs ! i) c)"
proof (induction cols arbitrary: rs unm)
  case Nil
  then show ?case by simp
next
  case (Cons c0 cols)
  from Cons.prems obtain rs1 unm1 where
    step: "process_column id_col lk c0 (rs, unm) = Inr (rs1, unm1)"
    and rest: "process_columns id_col lk cols (rs1, unm1) = Inr (rs', unm')"
    by (auto split: sum.splits)
  note col = process_column_Inr[OF step]
  note ih = Cons.IH[OF rest]
  have "(rs1 ! i) c = (rs ! i) c" if "i < length rs" "c \<noteq> c0" for i c
    using col(2)[OF that(1)] that(2) by (simp split: if_splits)
  with ih col(1) show ?case by simp
qed

lemma process_columns_dup:
  assumes "distinct cols" "id_col \<notin> set cols" "c \<in> set cols" "i < length rs"
    and "\<not> is_blank ((rs ! i) c)" "2 \<le> length (matches lk (key_of c (rs ! i)))"
    and "id_col \<noteq> ''avg_value''" "''avg_value'' \<notin> set cols"
  shows "process_columns id_col lk cols (rs, unm) = Inl ValueError"
proof (cases "process_columns id_col lk cols (rs, unm)")
  case (Inl e)
  with process_columns_error[OF Inl assms(2,7,8)] show ?thesis by simp
next
  case (Inr st')
  obtain rs' unm' where "st' = (rs', unm')" by (cases st')
  with Inr process_columns_Inr_all[of id_col lk cols rs unm rs' unm'] assms
  have "length (matches lk (key_of c (rs ! i))) \<le> 1" by blast
  with assms(6) show ?thesis by simp
qed


lemma merge_requests_mem:
  "(c, i, key) \<in> set (merge_requests id_col lk cols (rs, unm)) \<Longrightarrow> distinct cols \<Longrightarrow>
   c \<in> set cols \<and> i < length rs \<and> \<not> is_blank ((rs ! i) c) \<and> key = key_of c (rs ! i)"
proof (induction cols arbitrary: rs unm)
  case Nil
  then show ?case by simp
next
  case (Cons c0 cols)
  have "(c, i, key) \<in> (\<lambda>(i, idv, key). (c0, i, key)) ` set (temp_df_col_clean id_col c0 rs)
     \<or> (\<exists>rs1 unm1. process_column id_col lk c0 (rs, unm) = Inr (rs1, unm1)
           \<and> (c, i, key) \<in> set (merge_requests id_col lk cols (rs1, unm1)))"
  proof (cases "process_column id_col lk c0 (rs, unm)")
    case (Inl e)
    with Cons.prems(1) show ?thesis by auto
  next
    case (Inr st')
    obtain rs1 unm1 where "st' = (rs1, unm1)" by (cases st')
    with Inr Cons.prems(1) show ?thesis by auto
  qed
  then consider
      (here) "(c, i, key) \<in> (\<lambda>(i, idv, key). (c0, i, key)) ` set (temp_df_col_clean id_col c0 rs)"
    | (later) rs1 unm1 where "process_column id_col lk c0 (rs, unm) = Inr (rs1, unm1)"
        "(c, i, key) \<in> set (merge_requests id_col lk cols (rs1, unm1))"
    by blast
  then show ?case
  proof cases
    case here
    then show ?thesis unfolding clean_set by auto
  next
    case later
    from Cons.prems(2) have dist: "distinct cols" and c0: "c0 \<notin> set cols" by auto
    note col = process_column_Inr[OF later(1)]
    from Cons.IH[OF later(2) dist]
    have ih: "c \<in> set cols" "i < length rs1" "\<not> is_blank ((rs1 ! i) c)"
      "key = key_of c (rs1 ! i)" by auto
    from ih(1) c0 have ne: "c \<noteq> c0" by auto
    from ih(2) col(1) have i: "i < length rs" by simp
    from col(2)[OF i] ne have "(rs1 ! i) c = (rs ! i) c" by (simp split: if_splits)
    with ih i show ?thesis by (simp add: key_of_def)
  qed
qed

lemma update_sql_other: "c' \<noteq> c \<Longrightarrow> update_sql c lk r c' = r c'"
  by (simp add: update_sql_def split: option.splits list.splits)

lemma update_sql_same:
  "update_sql c lk r c =
     (case r c of None \<Rightarrow> None
      | Some v \<Rightarrow> (case matches lk (key_of c r) of [] \<Rightarrow> Some v | (k, a) # ms \<Rightarrow> a))"
  by (simp add: update_sql_def split: option.splits list.splits)

lemma insert_unmapped_sql_update:
  assumes "c \<noteq> c0" "id_col \<noteq> c0"
  shows "insert_unmapped_sql id_col c lk (map (update_sql c0 lk) rs)
         = insert_unmapped_sql id_col c lk rs"
proof -
  have "update_sql c0 lk r c = r c" "update_sql c0 lk r id_col = r id_col" for r
    using assms by (simp_all add: update_sql_other)
  then show ?thesis
    by (induction rs) (simp_all add: insert_unmapped_sql_def key_of_def)
qed

lemma update_amt_columns_all:
  "update_amt_columns id_col lk cols (rs, tmp) = (rs', tmp') \<Longrightarrow>
   distinct cols \<Longrightarrow> id_col \<notin> set cols \<Longrightarrow>
   length rs' = length rs
   \<and> (\<forall>i < length rs. \<forall>c. (rs' ! i) c =
          (if c \<in> set cols then update_sql c lk (rs ! i) c else (rs ! i) c))
   \<and> tmp' = tmp @ concat (map (\<lambda>c. insert_unmapped_sql id_col c lk rs) cols)"
proof (induction cols arbitrary: rs tmp)
  case Nil
  then show ?case by simp
next
  case (Cons c0 cols)
  let ?rs1 = "map (update_sql c0 lk) rs"
  let ?tmp1 = "tmp @ insert_unmapped_sql id_col c0 lk rs"
  from Cons.prems(1) have rest: "update_amt_columns id_col lk cols (?rs1, ?tmp1) = (rs', tmp')"
    by simp
  from Cons.prems have dist: "distinct cols" and c0: "c0 \<notin> set cols"
    and idc: "id_col \<notin> set cols" and idc0: "id_col \<noteq> c0" by auto
  note ih = Cons.IH[OF rest dist idc]
  have p1: "length rs' = length rs" using ih by simp
  have p2: "\<forall>i < length rs. \<forall>c. (rs' ! i) c =
          (if c \<in> set (c0 # cols) then update_sql c lk (rs ! i) c else (rs ! i) c)"
  proof (intro allI impI)
    fix i c assume i: "i < length rs"
    with ih have r: "(rs' ! i) c =
        (if c \<in> set cols then update_sql c lk (?rs1 ! i) c else (?rs1 ! i) c)" by simp
    show "(rs' ! i) c =
          (if c \<in> set (c0 # cols) then update_sql c lk (rs ! i) c else (rs ! i) c)"
    proof (cases "c = c0")
      case True
      with r c0 i show ?thesis by simp
    next
      case False
      then have e: "update_sql c0 lk (rs ! i) c = (rs ! i) c" by (simp add: update_sql_other)
      then have "key_of c (update_sql c0 lk (rs ! i)) = key_of c (rs ! i)"
        by (simp add: key_of_def)
      with e r i False show ?thesis by (simp add: update_sql_same split: option.splits)
    qed
  qed
  have "map (\<lambda>c. insert_unmapped_sql id_col c lk ?rs1) cols
        = map (\<lambda>c. insert_unmapped_sql id_col c lk rs) cols"
    using c0 idc0 by (intro map_cong refl insert_unmapped_sql_update) auto
  with ih have p3: "tmp' = tmp @ concat (map (\<lambda>c. insert_unmapped_sql id_col c lk rs) (c0 # cols))"
    by simp
  from p1 p2 p3 show ?case by blast
qed

lemmas engine_eval = process_column_def temp_df_col_clean_def merged_id_def merge_left_def
  loc_assign_def
  set_update_def is_blank_def key_of_def matches_def fillna_str_def Let_def enumerate_eq_zip
  update_sql_def insert_unmapped_sql_def

lemma ex_process_columns:
  "process_columns ''id'' ex_lookup [''amt_x'', ''amt_y''] ([ex_row1, ex_row7], [])
   = Inr ([ex_row1(''amt_x'' := Some ''10.2''), ex_row7(''amt_x'' := None, ''amt_y'' := None)],
          [Some ''1'', Some ''7''])"
  by (simp add: engine_eval ex_row1_def ex_row7_def ex_lookup_def)

lemma ex_update_amt_columns:
  "update_amt_columns ''id'' ex_lookup [''amt_x'', ''amt_y''] ([ex_row1, ex_row7], [])
   = ([ex_row1(''amt_x'' := Some ''10.2''), ex_row7],
      [(Some ''7'', Some ''8'', ''amt_x''), (Some ''7'', Some ''9'', ''amt_y'')])"
  by (simp add: engine_eval ex_row1_def ex_row7_def ex_lookup_def fun_eq_iff)

lemma matches_single:
  "(key, a) \<in> set lk \<Longrightarrow> length (matches lk key) \<le> 1 \<Longrightarrow> matches lk key = [(key, a)]"
proof -
  assume "(key, a) \<in> set lk" and le: "length (matches lk key) \<le> 1"
  then have mem: "(key, a) \<in> set (matches lk key)" by (simp add: matches_def)
  then obtain x where "matches lk key = [x]" using le
    by (cases "matches lk key") (auto simp: Suc_le_eq)
  with mem show ?thesis by simp
qed

section \<open>Cells whose value is not blank\<close>

lemma recorded_plain: "id_col \<noteq> ''composite_key'' \<Longrightarrow> recorded id_col c r = r id_col"
  by (simp add: recorded_def merged_id_def)

lemma recorded_blank: "is_blank (r c) \<Longrightarrow> recorded id_col c r = r id_col"
  by (simp add: recorded_def)

lemma process_columns_recorded:
  assumes "process_columns id_col lk cols (rs, unm) = Inr (rs', unm')"
    and "distinct cols" and "id_col \<notin> set cols"
    and "i < length rs" and "c \<in> set cols" and "fails lk c (rs ! i)"
  shows "recorded id_col c (rs ! i) \<in> set unm'"
proof -
  from process_columns_Inr_all[OF assms(1,2,3)]
  have "set unm' = set unm \<union>
         {recorded id_col c (rs ! i) | i c. i < length rs \<and> c \<in> set cols \<and> fails lk c (rs ! i)}"
    by simp
  moreover from assms(4,5,6)
  have "recorded id_col c (rs ! i)
          \<in> {recorded id_col c (rs ! i) | i c. i < length rs \<and> c \<in> set cols \<and> fails lk c (rs ! i)}"
    by blast
  ultimately show ?thesis by simp
qed

lemma process_columns_cell:
  assumes "process_columns id_col lk cols (rs, unm) = Inr (rs', unm')"
    and "distinct cols" and "id_col \<notin> set cols" and "i < length rs"
  shows "(rs' ! i) c = (if c \<in> set cols \<and> \<not> is_blank ((rs ! i) c)
           then avg_of lk (key_of c (rs ! i)) else (rs ! i) c)"
  using process_columns_Inr_all[OF assms(1,2,3)] assms(4) by simp

lemma process_columns_single:
  assumes "process_columns id_col lk cols (rs, unm) = Inr (rs', unm')"
    and "distinct cols" and "id_col \<notin> set cols" and "i < length rs"
    and "c \<in> set cols" and "\<not> is_blank ((rs ! i) c)"
  shows "length (matches lk (key_of c (rs ! i))) \<le> 1"
  using process_columns_Inr_all[OF assms(1,2,3)] assms(4,5,6) by simp

lemma process_columns_distinct:
  assumes "process_columns id_col lk cols (rs, unm) = Inr (rs', unm')"
    and "distinct cols" and "id_col \<notin> set cols" and "distinct unm"
  shows "distinct unm'"
  using process_columns_Inr_all[OF assms(1,2,3)] assms(4) by simp

text \<open>
  Claim C1, as amended. A chunk is processed with the identifier column outside the
  target columns and not named \<^verbatim>\<open>composite_key\<close>, and the target columns pairwise
  different; row \<open>i\<close> holds the non-blank value \<open>v\<close> in the target column \<open>col\<close>,
  so its key is \<open>col @ ''_'' @ v\<close>.

  In the in-memory engine (9_code_optimized.py), once the columns of the chunk have been
  processed without an exception: if no entry of the lookup bears the key, the cell is
  absent (and so no longer the original value) and the identifier of the row is in the
  set of unmapped identifiers; if an entry bears the key, the cell holds the average
  value of that entry. (With an identifier column named \<^verbatim>\<open>composite_key\<close> line 167
  overwrites the identifier of the row by its key before line 191 reads it, so that
  the key is recorded in place of the identifier.)

  In the SQL variant (code_5.py) the guard \<^verbatim>\<open>WHERE EXISTS\<close> of the update keeps a
  cell that misses at its original value, while the row is recorded in the table of
  unmapped values; a cell that hits takes the average value of the first entry with
  its key.
\<close>

theorem nonblank_cell_after_transform:
  assumes "distinct cols" and "id_col \<notin> set cols" and "col \<in> set cols"
    and "i < length rs" and "(rs ! i) col = Some v" and "v \<noteq> []"
    and "id_col \<noteq> ''composite_key''"
  shows "(process_columns id_col lk cols (rs, unm) = Inr (rs', unm') \<longrightarrow>
            (matches lk (col @ ''_'' @ v) = [] \<longrightarrow>
               (rs' ! i) col = None \<and> (rs' ! i) col \<noteq> Some v \<and> (rs ! i) id_col \<in> set unm')
          \<and> (\<forall>a. (col @ ''_'' @ v, a) \<in> set lk \<longrightarrow> (rs' ! i) col = a))
       \<and> (update_amt_columns id_col lk cols (rs, tmp) = (rs2, tmp2) \<longrightarrow>
            (matches lk (col @ ''_'' @ v) = [] \<longrightarrow>
               (rs2 ! i) col = Some v \<and> ((rs ! i) id_col, Some v, col) \<in> set tmp2)
          \<and> (\<forall>k a ms. matches lk (col @ ''_'' @ v) = (k, a) # ms \<longrightarrow> (rs2 ! i) col = a))"
proof (intro conjI impI allI)
  have key: "key_of col (rs ! i) = col @ ''_'' @ v"
    using assms(5) by (simp add: key_of_def fillna_str_def)
  have nb: "\<not> is_blank ((rs ! i) col)"
    using assms(5,6) by (simp add: is_blank_def)
  {
    assume run: "process_columns id_col lk cols (rs, unm) = Inr (rs', unm')"
    from process_columns_cell[OF run assms(1,2,4), of col] assms(3) nb key
    have cell: "(rs' ! i) col = avg_of lk (col @ ''_'' @ v)" by simp
    from process_columns_single[OF run assms(1,2,4,3) nb] key
    have one: "length (matches lk (col @ ''_'' @ v)) \<le> 1" by simp
    {
      assume miss: "matches lk (col @ ''_'' @ v) = []"
      with cell show "(rs' ! i) col = None" by (simp add: avg_of_def)
      then show "(rs' ! i) col \<noteq> Some v" by simp
      from miss key have "fails lk col (rs ! i)" by (simp add: fails_def avg_of_def)
      from process_columns_recorded[OF run assms(1,2,4,3) this] assms(7)
      show "(rs ! i) id_col \<in> set unm'" by (simp add: recorded_plain)
    }
    {
      fix a assume "(col @ ''_'' @ v, a) \<in> set lk"
      from matches_single[OF this one] cell show "(rs' ! i) col = a"
        by (simp add: avg_of_def)
    }
  }
  {
    assume run: "update_amt_columns id_col lk cols (rs, tmp) = (rs2, tmp2)"
    note inv = update_amt_columns_all[OF run assms(1,2)]
    from inv assms(3,4)
    have cell: "(rs2 ! i) col = update_sql col lk (rs ! i) col" by simp
    {
      assume miss: "matches lk (col @ ''_'' @ v) = []"
      with cell key assms(5) show "(rs2 ! i) col = Some v" by (simp add: update_sql_same)
      from assms(4) have "rs ! i \<in> set rs" by simp
      with miss key assms(5,6)
      have "((rs ! i) id_col, Some v, col) \<in> set (insert_unmapped_sql id_col col lk rs)"
        by (force simp: insert_unmapped_sql_def)
      with inv assms(3) show "((rs ! i) id_col, Some v, col) \<in> set tmp2" by auto
    }
    {
      fix k a ms assume "matches lk (col @ ''_'' @ v) = (k, a) # ms"
      with cell key assms(5) show "(rs2 ! i) col = a" by (simp add: update_sql_same)
    }
  }
qed

theorem nonblank_cell_after_transform_witness:
  "distinct [''amt_x'', ''amt_y''] \<and> ''id'' \<notin> set [''amt_x'', ''amt_y'']
   \<and> ''amt_x'' \<in> set [''amt_x'', ''amt_y''] \<and> (1::nat) < length [ex_row1, ex_row7]
   \<and> ([ex_row1, ex_row7] ! 1) ''amt_x'' = Some ''8'' \<and> ''8'' \<noteq> []
   \<and> ''id'' \<noteq> ''composite_key''
   \<and> ([ex_row1, ex_row7] ! 0) ''amt_x'' = Some ''5'' \<and> ''5'' \<noteq> []
   \<and> process_columns ''id'' ex_lookup [''amt_x'', ''amt_y''] ([ex_row1, ex_row7], [])
       = Inr ([ex_row1(''amt_x'' := Some ''10.2''), ex_row7(''amt_x'' := None, ''amt_y'' := None)],
              [Some ''1'', Some ''7''])
   \<and> matches ex_lookup (''amt_x'' @ ''_'' @ ''8'') = []
   \<and> ([ex_row1(''amt_x'' := Some ''10.2''), ex_row7(''amt_x'' := None, ''amt_y'' := None)] ! 1)
         ''amt_x'' = None
   \<and> ([ex_row1, ex_row7] ! 1) ''id'' \<in> set [Some ''1'', Some ''7'']
   \<and> (''amt_x'' @ ''_'' @ ''5'', Some ''10.2'') \<in> set ex_lookup
   \<and> ([ex_row1(''amt_x'' := Some ''10.2''), ex_row7(''amt_x'' := None, ''amt_y'' := None)] ! 0)
         ''amt_x'' = Some ''10.2''
   \<and> update_amt_columns ''id'' ex_lookup [''amt_x'', ''amt_y''] ([ex_row1, ex_row7], [])
       = ([ex_row1(''amt_x'' := Some ''10.2''), ex_row7],
          [(Some ''7'', Some ''8'', ''amt_x''), (Some ''7'', Some ''9'', ''amt_y'')])
   \<and> ([ex_row1(''amt_x'' := Some ''10.2''), ex_row7] ! 1) ''amt_x'' = Some ''8''
   \<and> (([ex_row1, ex_row7] ! 1) ''id'', Some ''8'', ''amt_x'')
         \<in> set [(Some ''7'', Some ''8'', ''amt_x''), (Some ''7'', Some ''9'', ''amt_y'')]"
proof -
  have h: "distinct [''amt_x'', ''amt_y'']" "''id'' \<notin> set [''amt_x'', ''amt_y'']"
    "''amt_x'' \<in> set [''amt_x'', ''amt_y'']" "(1::nat) < length [ex_row1, ex_row7]"
    "([ex_row1, ex_row7] ! 1) ''amt_x'' = Some ''8''" "''8'' \<noteq> []"
    by (simp_all add: ex_row7_def)
  have h0: "(0::nat) < length [ex_row1, ex_row7]"
    "([ex_row1, ex_row7] ! 0) ''amt_x'' = Some ''5''" "''5'' \<noteq> []"
    by (simp_all add: ex_row1_def)
  have h7: "''id'' \<noteq> ''composite_key''" by simp
  have m: "matches ex_lookup (''amt_x'' @ ''_'' @ ''8'') = []"
    "(''amt_x'' @ ''_'' @ ''5'', Some ''10.2'') \<in> set ex_lookup"
    by (simp_all add: matches_def ex_lookup_def)
  note miss = nonblank_cell_after_transform[OF h h7, of ex_lookup "[]"
      "[ex_row1(''amt_x'' := Some ''10.2''), ex_row7(''amt_x'' := None, ''amt_y'' := None)]"
      "[Some ''1'', Some ''7'']" "[]" "[ex_row1(''amt_x'' := Some ''10.2''), ex_row7]"
      "[(Some ''7'', Some ''8'', ''amt_x''), (Some ''7'', Some ''9'', ''amt_y'')]"]
  note hit = nonblank_cell_after_transform[OF h(1,2,3) h0 h7, of ex_lookup "[]"
      "[ex_row1(''amt_x'' := Some ''10.2''), ex_row7(''amt_x'' := None, ''amt_y'' := None)]"
      "[Some ''1'', Some ''7'']"]
  from miss m(1) ex_process_columns ex_update_amt_columns
  have a: "([ex_row1(''amt_x'' := Some ''10.2''), ex_row7(''amt_x'' := None, ''amt_y'' := None)] ! 1)
         ''amt_x'' = None"
    "([ex_row1, ex_row7] ! 1) ''id'' \<in> set [Some ''1'', Some ''7'']"
    "([ex_row1(''amt_x'' := Some ''10.2''), ex_row7] ! 1) ''amt_x'' = Some ''8''"
    "(([ex_row1, ex_row7] ! 1) ''id'', Some ''8'', ''amt_x'')
         \<in> set [(Some ''7'', Some ''8'', ''amt_x''), (Some ''7'', Some ''9'', ''amt_y'')]"
    by blast+
  from hit m(2) ex_process_columns
  have b: "([ex_row1(''amt_x'' := Some ''10.2''), ex_row7(''amt_x'' := None, ''amt_y'' := None)] ! 0)
         ''amt_x'' = Some ''10.2''"
    by blast
  from h h7 h0(2,3) m a b ex_process_columns ex_update_amt_columns
  show ?thesis by blast
qed

text \<open>The claim as it was stated fails on code_5.py: the key \<^verbatim>\<open>amt_x_8\<close> of the row
  with identifier 7 is not in the lookup, and after the update the cell still holds
  \<^verbatim>\<open>8\<close>.\<close>

theorem sql_miss_keeps_original_value:
  "matches ex_lookup (key_of ''amt_x'' ex_row7) = []
   \<and> ex_row7 ''amt_x'' = Some ''8''
   \<and> (fst (update_amt_columns ''id'' ex_lookup [''amt_x'', ''amt_y''] ([ex_row1, ex_row7], [])) ! 1)
        ''amt_x'' = Some ''8''"
  unfolding ex_update_amt_columns by (simp add: engine_eval ex_row7_def ex_lookup_def)

section \<open>Blank cells\<close>

lemma update_amt_columns_nonblank:
  "update_amt_columns id_col lk cols (rs, tmp) = (rs2, tmp2) \<Longrightarrow>
   (idv, v, c) \<in> set tmp2 \<Longrightarrow> (idv, v, c) \<in> set tmp \<or> \<not> is_blank v"
proof (induction cols arbitrary: rs tmp)
  case Nil
  then show ?case by simp
next
  case (Cons c0 cols)
  from Cons.prems(1)
  have "update_amt_columns id_col lk cols
          (map (update_sql c0 lk) rs, tmp @ insert_unmapped_sql id_col c0 lk rs) = (rs2, tmp2)"
    by simp
  from Cons.IH[OF this Cons.prems(2)] show ?case
    by (auto simp: insert_unmapped_sql_def is_blank_def)
qed

text \<open>
  Claim C3, as amended. Row \<open>i\<close> of a chunk holds a blank cell (absent or the empty
  string) in the target column \<open>col\<close>; the identifier column is not a target column and
  the target columns are pairwise different.

  In the in-memory engine (9_code_optimized.py), once the columns of the chunk have been
  processed without an exception, the identifier of the row is in the set of unmapped
  identifiers of the chunk, the cell is what it was, and the row is in none of the frames
  handed to the merge for that column: no lookup is made for the cell.

  In the SQL variant (code_5.py) \<^verbatim>\<open>insert_unmapped_sql\<close> selects only values that
  are neither \<^verbatim>\<open>NULL\<close> nor empty, so the table of unmapped values holds no entry
  for a blank cell.
\<close>

theorem blank_cell_after_transform:
  assumes "distinct cols" and "id_col \<notin> set cols" and "col \<in> set cols"
    and "i < length rs" and "is_blank ((rs ! i) col)"
  shows "(process_columns id_col lk cols (rs, unm) = Inr (rs', unm') \<longrightarrow>
            (rs ! i) id_col \<in> set unm' \<and> (rs' ! i) col = (rs ! i) col
            \<and> (\<forall>key. (col, i, key) \<notin> set (merge_requests id_col lk cols (rs, unm))))
       \<and> (update_amt_columns id_col lk cols (rs, []) = (rs2, tmp2) \<longrightarrow>
            (\<forall>idv c. (idv, (rs ! i) col, c) \<notin> set tmp2))"
proof (intro conjI impI allI)
  {
    assume run: "process_columns id_col lk cols (rs, unm) = Inr (rs', unm')"
    from assms(5) have "fails lk col (rs ! i)" by (simp add: fails_def)
    from process_columns_recorded[OF run assms(1,2,4,3) this] assms(5)
    show "(rs ! i) id_col \<in> set unm'" by (simp add: recorded_blank)
    from process_columns_cell[OF run assms(1,2,4), of col] assms(5)
    show "(rs' ! i) col = (rs ! i) col" by simp
    fix key
    show "(col, i, key) \<notin> set (merge_requests id_col lk cols (rs, unm))"
      using merge_requests_mem[OF _ assms(1), of col i key id_col lk rs unm] assms(5) by blast
  }
  {
    assume run: "update_amt_columns id_col lk cols (rs, []) = (rs2, tmp2)"
    fix idv c
    show "(idv, (rs ! i) col, c) \<notin> set tmp2"
      using update_amt_columns_nonblank[OF run, of idv "(rs ! i) col" c] assms(5) by auto
  }
qed

theorem blank_cell_after_transform_witness:
  "distinct [''amt_x'', ''amt_y''] \<and> ''id'' \<notin> set [''amt_x'', ''amt_y'']
   \<and> ''amt_y'' \<in> set [''amt_x'', ''amt_y''] \<and> (0::nat) < length [ex_row1, ex_row7]
   \<and> is_blank (([ex_row1, ex_row7] ! 0) ''amt_y'')
   \<and> process_columns ''id'' ex_lookup [''amt_x'', ''amt_y''] ([ex_row1, ex_row7], [])
       = Inr ([ex_row1(''amt_x'' := Some ''10.2''), ex_row7(''amt_x'' := None, ''amt_y'' := None)],
              [Some ''1'', Some ''7''])
   \<and> ([ex_row1, ex_row7] ! 0) ''id'' \<in> set [Some ''1'', Some ''7'']
   \<and> ([ex_row1(''amt_x'' := Some ''10.2''), ex_row7(''amt_x'' := None, ''amt_y'' := None)] ! 0)
         ''amt_y'' = ([ex_row1, ex_row7] ! 0) ''amt_y''
   \<and> (''amt_y'', 0, ''amt_y_'')
         \<notin> set (merge_requests ''id'' ex_lookup [''amt_x'', ''amt_y''] ([ex_row1, ex_row7], []))
   \<and> update_amt_columns ''id'' ex_lookup [''amt_x'', ''amt_y''] ([ex_row1, ex_row7], [])
       = ([ex_row1(''amt_x'' := Some ''10.2''), ex_row7],
          [(Some ''7'', Some ''8'', ''amt_x''), (Some ''7'', Some ''9'', ''amt_y'')])
   \<and> (Some ''1'', ([ex_row1, ex_row7] ! 0) ''amt_y'', ''amt_y'')
         \<notin> set [(Some ''7'', Some ''8'', ''amt_x''), (Some ''7'', Some ''9'', ''amt_y'')]"
proof -
  have h: "distinct [''amt_x'', ''amt_y'']" "''id'' \<notin> set [''amt_x'', ''amt_y'']"
    "''amt_y'' \<in> set [''amt_x'', ''amt_y'']" "(0::nat) < length [ex_row1, ex_row7]"
    "is_blank (([ex_row1, ex_row7] ! 0) ''amt_y'')"
    by (simp_all add: ex_row1_def is_blank_def)
  note t = blank_cell_after_transform[OF h, of ex_lookup "[]"
      "[ex_row1(''amt_x'' := Some ''10.2''), ex_row7(''amt_x'' := None, ''amt_y'' := None)]"
      "[Some ''1'', Some ''7'']" "[ex_row1(''amt_x'' := Some ''10.2''), ex_row7]"
      "[(Some ''7'', Some ''8'', ''amt_x''), (Some ''7'', Some ''9'', ''amt_y'')]"]
  from t ex_process_columns ex_update_amt_columns
  have a: "([ex_row1, ex_row7] ! 0) ''id'' \<in> set [Some ''1'', Some ''7'']"
    "([ex_row1(''amt_x'' := Some ''10.2''), ex_row7(''amt_x'' := None, ''amt_y'' := None)] ! 0)
         ''amt_y'' = ([ex_row1, ex_row7] ! 0) ''amt_y''"
    "(''amt_y'', 0, ''amt_y_'')
         \<notin> set (merge_requests ''id'' ex_lookup [''amt_x'', ''amt_y''] ([ex_row1, ex_row7], []))"
    "(Some ''1'', ([ex_row1, ex_row7] ! 0) ''amt_y'', ''amt_y'')
         \<notin> set [(Some ''7'', Some ''8'', ''amt_x''), (Some ''7'', Some ''9'', ''amt_y'')]"
    by blast+
  from h a ex_process_columns ex_update_amt_columns show ?thesis by blast
qed

text \<open>The claim as it was stated fails on code_5.py: the cell \<^verbatim>\<open>amt_y\<close> of the row
  with identifier 1 is absent, and the table of unmapped values holds the identifier 7
  only.\<close>

theorem sql_blank_not_recorded:
  "is_blank (ex_row1 ''amt_y'') \<and> ex_row1 ''id'' = Some ''1''
   \<and> map fst (snd (update_amt_columns ''id'' ex_lookup [''amt_x'', ''amt_y'']
                     ([ex_row1, ex_row7], [])))
       = [Some ''7'', Some ''7'']"
  unfolding ex_update_amt_columns by (simp add: ex_row1_def is_blank_def)

section \<open>The set of unmapped identifiers\<close>

lemma ex_insert_unmapped:
  "concat (map (\<lambda>c. insert_unmapped_sql ''id'' c ex_lookup [ex_row1, ex_row7])
                [''amt_x'', ''amt_y''])
   = [(Some ''7'', Some ''8'', ''amt_x''), (Some ''7'', Some ''9'', ''amt_y'')]"
  by (simp add: engine_eval ex_row1_def ex_row7_def ex_lookup_def)

lemma count_list_distinct: "distinct xs \<Longrightarrow> x \<in> set xs \<Longrightarrow> count_list xs x = 1"
  by (induction xs) (auto simp: count_list_0_iff)

lemma data_rows_write_unmapped:
  "data_rows (nans_file (write_unmapped id_col unmapped s)) =
     (if is_first_unmapped_chunk s \<and> unmapped \<noteq> [] then [] else data_rows (nans_file s))
     @ map (\<lambda>v. [v]) unmapped"
  by (simp add: write_unmapped_def to_csv_def data_rows_def Let_def comp_def
      split: option.splits)

text \<open>
  Claim C6, as amended. The identifier column is not a target column and the target
  columns are pairwise different.

  In the in-memory engine (9_code_optimized.py) the set of unmapped identifiers that a
  chunk has collected, once its columns have been processed without an exception, holds
  no identifier twice; the identifier of a row with a blank cell in any target column,
  and, when the identifier column is not named \<^verbatim>\<open>composite_key\<close>, of a row with an
  unmatched cell, occurs in it exactly once, however many of the row's cells fail; and
  the report receives one data row for each element of the set. (With an identifier
  column named \<^verbatim>\<open>composite_key\<close> line 167 overwrites the identifier by the key of the
  cell, and it is the key that line 191 records for an unmatched cell.)

  In the SQL variant (code_5.py) the table of unmapped values, which is the report,
  receives for each target column in turn one row for every cell that is not blank and
  whose key has no entry: an identifier occurs once for each such cell of its row.
\<close>

theorem unmapped_ids_once:
  assumes "distinct cols" and "id_col \<notin> set cols"
  shows "(process_columns id_col lk cols (rs, []) = Inr (rs', unmapped) \<longrightarrow>
            distinct unmapped
            \<and> (\<forall>i c. i < length rs \<and> c \<in> set cols \<and> fails lk c (rs ! i)
                    \<and> (is_blank ((rs ! i) c) \<or> id_col \<noteq> ''composite_key'') \<longrightarrow>
                  count_list unmapped ((rs ! i) id_col) = 1)
            \<and> data_rows (nans_file (write_unmapped id_col unmapped s)) =
                (if is_first_unmapped_chunk s \<and> unmapped \<noteq> [] then []
                 else data_rows (nans_file s)) @ map (\<lambda>v. [v]) unmapped)
       \<and> (update_amt_columns id_col lk cols (rs, []) = (rs2, tmp2) \<longrightarrow>
            tmp2 = concat (map (\<lambda>c. insert_unmapped_sql id_col c lk rs) cols))"
proof (intro conjI impI allI)
  {
    assume run: "process_columns id_col lk cols (rs, []) = Inr (rs', unmapped)"
    from process_columns_distinct[OF run assms] show d: "distinct unmapped" by simp
    show "data_rows (nans_file (write_unmapped id_col unmapped s)) =
                (if is_first_unmapped_chunk s \<and> unmapped \<noteq> [] then []
                 else data_rows (nans_file s)) @ map (\<lambda>v. [v]) unmapped"
      by (rule data_rows_write_unmapped)
    fix i c assume a: "i < length rs \<and> c \<in> set cols \<and> fails lk c (rs ! i)
                    \<and> (is_blank ((rs ! i) c) \<or> id_col \<noteq> ''composite_key'')"
    then have "recorded id_col c (rs ! i) = (rs ! i) id_col"
      by (auto simp: recorded_blank recorded_plain)
    moreover from a have "i < length rs" "c \<in> set cols" "fails lk c (rs ! i)" by simp_all
    from process_columns_recorded[OF run assms this]
    have "recorded id_col c (rs ! i) \<in> set unmapped" .
    ultimately have "(rs ! i) id_col \<in> set unmapped" by simp
    with d show "count_list unmapped ((rs ! i) id_col) = 1" by (rule count_list_distinct)
  }
  {
    assume "update_amt_columns id_col lk cols (rs, []) = (rs2, tmp2)"
    from update_amt_columns_all[OF this assms]
    show "tmp2 = concat (map (\<lambda>c. insert_unmapped_sql id_col c lk rs) cols)" by simp
  }
qed

theorem unmapped_ids_once_witness:
  "distinct [''amt_x'', ''amt_y''] \<and> ''id'' \<notin> set [''amt_x'', ''amt_y'']
   \<and> process_columns ''id'' ex_lookup [''amt_x'', ''amt_y''] ([ex_row1, ex_row7], [])
       = Inr ([ex_row1(''amt_x'' := Some ''10.2''), ex_row7(''amt_x'' := None, ''amt_y'' := None)],
              [Some ''1'', Some ''7''])
   \<and> fails ex_lookup ''amt_x'' ([ex_row1, ex_row7] ! 1)
   \<and> fails ex_lookup ''amt_y'' ([ex_row1, ex_row7] ! 1)
   \<and> ''id'' \<noteq> ''composite_key''
   \<and> distinct [Some ''1'', Some ''7'']
   \<and> count_list [Some ''1'', Some ''7''] (([ex_row1, ex_row7] ! 1) ''id'') = 1
   \<and> update_amt_columns ''id'' ex_lookup [''amt_x'', ''amt_y''] ([ex_row1, ex_row7], [])
       = ([ex_row1(''amt_x'' := Some ''10.2''), ex_row7],
          [(Some ''7'', Some ''8'', ''amt_x''), (Some ''7'', Some ''9'', ''amt_y'')])
   \<and> [(Some ''7'', Some ''8'', ''amt_x''), (Some ''7'', Some ''9'', ''amt_y'')]
       = concat (map (\<lambda>c. insert_unmapped_sql ''id'' c ex_lookup [ex_row1, ex_row7])
                   [''amt_x'', ''amt_y''])"
proof -
  have h: "distinct [''amt_x'', ''amt_y'']" "''id'' \<notin> set [''amt_x'', ''amt_y'']"
    by simp_all
  have f: "fails ex_lookup ''amt_x'' ([ex_row1, ex_row7] ! 1)"
    "fails ex_lookup ''amt_y'' ([ex_row1, ex_row7] ! 1)"
    by (simp_all add: fails_def avg_of_def engine_eval ex_row7_def ex_lookup_def)
  have i: "(1::nat) < length [ex_row1, ex_row7]" "''amt_x'' \<in> set [''amt_x'', ''amt_y'']"
    "''id'' \<noteq> ''composite_key''"
    by simp_all
  note t = unmapped_ids_once[OF h, of ex_lookup "[ex_row1, ex_row7]"
      "[ex_row1(''amt_x'' := Some ''10.2''), ex_row7(''amt_x'' := None, ''amt_y'' := None)]"
      "[Some ''1'', Some ''7'']" _ "[ex_row1(''amt_x'' := Some ''10.2''), ex_row7]"
      "[(Some ''7'', Some ''8'', ''amt_x''), (Some ''7'', Some ''9'', ''amt_y'')]"]
  from t ex_process_columns f i
  have a: "distinct [Some ''1'', Some ''7'']"
    "count_list [Some ''1'', Some ''7''] (([ex_row1, ex_row7] ! 1) ''id'') = 1"
    by blast+
  from t ex_update_amt_columns
  have b: "[(Some ''7'', Some ''8'', ''amt_x''), (Some ''7'', Some ''9'', ''amt_y'')]
       = concat (map (\<lambda>c. insert_unmapped_sql ''id'' c ex_lookup [ex_row1, ex_row7])
                   [''amt_x'', ''amt_y''])"
    by blast
  from h f i(3) a b ex_process_columns ex_update_amt_columns show ?thesis by blast
qed

text \<open>The claim as it was stated fails on code_5.py: the two cells of the row with
  identifier 7 miss, and the report holds the identifier twice.\<close>

theorem sql_report_repeats_identifier:
  "snd (update_amt_columns ''id'' ex_lookup [''amt_x'', ''amt_y''] ([ex_row7], []))
     = [(Some ''7'', Some ''8'', ''amt_x''), (Some ''7'', Some ''9'', ''amt_y'')]
   \<and> count_list (map fst (snd (update_amt_columns ''id'' ex_lookup [''amt_x'', ''amt_y'']
                                   ([ex_row7], [])))) (Some ''7'') = 2"
  by (simp add: engine_eval ex_row7_def ex_lookup_def)

section \<open>Duplicate keys in the mapping source\<close>

lemma load_mapping_Inr:
  assumes "load_mapping (Some raw) = Inr lk"
  shows "\<exists>a c v. amt_senf_col_mapping (map sanitize (columns raw)) = Some a
           \<and> cat_no_col_mapping (map sanitize (columns raw)) = Some c
           \<and> avg_value_col_mapping (map sanitize (columns raw)) = Some v
           \<and> lk = map (\<lambda>r. (composite_key (r a) (r c), r v)) (rows (set_columns sanitize raw))"
  using assms
  by (auto simp: load_mapping_def Let_def set_columns_def split: option.splits)

lemma length_load_mapping: "load_mapping (Some raw) = Inr lk \<Longrightarrow> length lk = length (rows raw)"
  by (auto dest!: load_mapping_Inr simp: set_columns_def)

lemma ex_load_mapping_dup: "load_mapping (Some ex_mapping_dup) = Inr ex_lookup_dup"
  by code_simp

lemma ex_dup_update_amt_columns:
  "update_amt_columns ''id'' ex_lookup_dup [''amt_x''] ([ex_row1], [])
   = ([ex_row1(''amt_x'' := Some ''10.2'')], [])"
  by (simp add: engine_eval ex_row1_def ex_lookup_dup_def)

lemma ex_one_process_columns:
  "process_columns ''id'' ex_lookup [''amt_x''] ([ex_row1], [])
   = Inr ([ex_row1(''amt_x'' := Some ''10.2'')], [])"
  by (simp add: engine_eval ex_row1_def ex_lookup_def fun_eq_iff)

text \<open>
  Claim C4, as amended. The lookup is not a map in which a later entry replaces an
  earlier one: it keeps one entry for every row of the mapping source, in source order,
  with the composite key and the average value of that row. Row \<open>i\<close> of a chunk holds
  the non-blank value \<open>v\<close> in the target column \<open>col\<close> (the identifier column is not a
  target column, the target columns are pairwise different).

  In the in-memory engine (9_code_optimized.py), when exactly one entry bears the key of
  the cell and the columns of the chunk have been processed, the cell holds the average
  value of that entry. In the SQL variant (code_5.py) the scalar subquery of the update
  gives the cell the average value of the first entry that bears its key, whatever
  entries follow it.

  Nothing is stated here of the in-memory engine for a key that several entries bear:
  the comments of lines 170 to 171 and 201 to 202 expect one merged row for each row of
  the chunk, and the code has no branch for the other case.
\<close>

theorem duplicate_keys_in_lookup:
  assumes "distinct cols" and "id_col \<notin> set cols" and "col \<in> set cols"
    and "i < length rs" and "(rs ! i) col = Some v" and "v \<noteq> []"
  shows "(\<forall>a c w. amt_senf_col_mapping (map sanitize (columns raw)) = Some a
              \<and> cat_no_col_mapping (map sanitize (columns raw)) = Some c
              \<and> avg_value_col_mapping (map sanitize (columns raw)) = Some w \<longrightarrow>
            load_mapping (Some raw) =
              Inr (map (\<lambda>r. (composite_key (r a) (r c), r w)) (rows (set_columns sanitize raw))))
       \<and> (load_mapping (Some raw) = Inr lk \<longrightarrow> length lk = length (rows raw))
       \<and> (\<forall>a rs' unm'. matches lk (col @ ''_'' @ v) = [(col @ ''_'' @ v, a)]
              \<and> process_columns id_col lk cols (rs, unm) = Inr (rs', unm') \<longrightarrow>
            (rs' ! i) col = a)
       \<and> (\<forall>k a ms rs2 tmp2. matches lk (col @ ''_'' @ v) = (k, a) # ms
              \<and> update_amt_columns id_col lk cols (rs, tmp) = (rs2, tmp2) \<longrightarrow>
            (rs2 ! i) col = a)"
proof (intro conjI impI allI)
  have key: "key_of col (rs ! i) = col @ ''_'' @ v"
    using assms(5) by (simp add: key_of_def fillna_str_def)
  have nb: "\<not> is_blank ((rs ! i) col)"
    using assms(5,6) by (simp add: is_blank_def)
  show "load_mapping (Some raw) =
          Inr (map (\<lambda>r. (composite_key (r a) (r c), r w)) (rows (set_columns sanitize raw)))"
    if "amt_senf_col_mapping (map sanitize (columns raw)) = Some a
          \<and> cat_no_col_mapping (map sanitize (columns raw)) = Some c
          \<and> avg_value_col_mapping (map sanitize (columns raw)) = Some w" for a c w
    using that by (simp add: load_mapping_def Let_def set_columns_def)
  show "length lk = length (rows raw)" if "load_mapping (Some raw) = Inr lk"
    using that by (rule length_load_mapping)
  show "(rs' ! i) col = a"
    if "matches lk (col @ ''_'' @ v) = [(col @ ''_'' @ v, a)]
          \<and> process_columns id_col lk cols (rs, unm) = Inr (rs', unm')" for a rs' unm'
  proof -
    from that have run: "process_columns id_col lk cols (rs, unm) = Inr (rs', unm')" by simp
    from process_columns_cell[OF run assms(1,2,4), of col] assms(3) nb key
    have "(rs' ! i) col = avg_of lk (col @ ''_'' @ v)" by simp
    with that show ?thesis by (simp add: avg_of_def)
  qed
  show "(rs2 ! i) col = a"
    if "matches lk (col @ ''_'' @ v) = (k, a) # ms
          \<and> update_amt_columns id_col lk cols (rs, tmp) = (rs2, tmp2)" for k a ms rs2 tmp2
  proof -
    from that have run: "update_amt_columns id_col lk cols (rs, tmp) = (rs2, tmp2)" by simp
    from update_amt_columns_all[OF run assms(1,2)] assms(3,4)
    have "(rs2 ! i) col = update_sql col lk (rs ! i) col" by simp
    with that key assms(5) show ?thesis by (simp add: update_sql_same)
  qed
qed

theorem duplicate_keys_in_lookup_witness:
  "distinct [''amt_x''] \<and> ''id'' \<notin> set [''amt_x''] \<and> ''amt_x'' \<in> set [''amt_x'']
   \<and> (0::nat) < length [ex_row1] \<and> ([ex_row1] ! 0) ''amt_x'' = Some ''5'' \<and> ''5'' \<noteq> []
   \<and> amt_senf_col_mapping (map sanitize (columns ex_mapping_dup)) = Some ''Amt_Senf''
   \<and> cat_no_col_mapping (map sanitize (columns ex_mapping_dup)) = Some ''Cat_No''
   \<and> avg_value_col_mapping (map sanitize (columns ex_mapping_dup)) = Some ''Avg_Value''
   \<and> load_mapping (Some ex_mapping_dup) =
       Inr (map (\<lambda>r. (composite_key (r ''Amt_Senf'') (r ''Cat_No''), r ''Avg_Value''))
              (rows (set_columns sanitize ex_mapping_dup)))
   \<and> load_mapping (Some ex_mapping_dup) = Inr ex_lookup_dup
   \<and> length ex_lookup_dup = length (rows ex_mapping_dup)
   \<and> matches ex_lookup (''amt_x'' @ ''_'' @ ''5'') = [(''amt_x'' @ ''_'' @ ''5'', Some ''10.2'')]
   \<and> process_columns ''id'' ex_lookup [''amt_x''] ([ex_row1], [])
       = Inr ([ex_row1(''amt_x'' := Some ''10.2'')], [])
   \<and> matches ex_lookup_dup (''amt_x'' @ ''_'' @ ''5'')
       = (''amt_x_5'', Some ''10.2'') # [(''amt_x_5'', Some ''99'')]
   \<and> update_amt_columns ''id'' ex_lookup_dup [''amt_x''] ([ex_row1], [])
       = ([ex_row1(''amt_x'' := Some ''10.2'')], [])
   \<and> ([ex_row1(''amt_x'' := Some ''10.2'')] ! 0) ''amt_x'' = Some ''10.2''"
proof -
  have h: "distinct [''amt_x'']" "''id'' \<notin> set [''amt_x'']" "''amt_x'' \<in> set [''amt_x'']"
    "(0::nat) < length [ex_row1]" "([ex_row1] ! 0) ''amt_x'' = Some ''5''" "''5'' \<noteq> []"
    by (simp_all add: ex_row1_def)
  have cols: "amt_senf_col_mapping (map sanitize (columns ex_mapping_dup)) = Some ''Amt_Senf''"
    "cat_no_col_mapping (map sanitize (columns ex_mapping_dup)) = Some ''Cat_No''"
    "avg_value_col_mapping (map sanitize (columns ex_mapping_dup)) = Some ''Avg_Value''"
    by code_simp+
  have m: "matches ex_lookup (''amt_x'' @ ''_'' @ ''5'') = [(''amt_x'' @ ''_'' @ ''5'', Some ''10.2'')]"
    "matches ex_lookup_dup (''amt_x'' @ ''_'' @ ''5'')
       = (''amt_x_5'', Some ''10.2'') # [(''amt_x_5'', Some ''99'')]"
    by (simp_all add: matches_def ex_lookup_def ex_lookup_dup_def)
  note t = duplicate_keys_in_lookup[OF h, of ex_mapping_dup ex_lookup_dup "[]" "[]"]
  note u = duplicate_keys_in_lookup[OF h, of _ ex_lookup "[]"]
  from t cols
  have l: "load_mapping (Some ex_mapping_dup) =
       Inr (map (\<lambda>r. (composite_key (r ''Amt_Senf'') (r ''Cat_No''), r ''Avg_Value''))
              (rows (set_columns sanitize ex_mapping_dup)))"
    by blast
  from t ex_load_mapping_dup
  have a: "length ex_lookup_dup = length (rows ex_mapping_dup)"
    by blast
  from t m(2) ex_dup_update_amt_columns
  have b: "([ex_row1(''amt_x'' := Some ''10.2'')] ! 0) ''amt_x'' = Some ''10.2''"
    by blast
  from u m(1) ex_one_process_columns
  have c: "([ex_row1(''amt_x'' := Some ''10.2'')] ! 0) ''amt_x'' = Some ''10.2''"
    by blast
  from h cols l m a b ex_load_mapping_dup ex_dup_update_amt_columns ex_one_process_columns
  show ?thesis by blast
qed

text \<open>The claim as it was stated fails: the mapping source has two rows with the key
  \<^verbatim>\<open>amt_x_5\<close>, the last one with the average value 99. The lookup keeps both, the merge
  of lines 181 to 187 returns both for a cell with that key, in source order, and the
  SQL variant gives the cell the value 10.2 of the first row.\<close>

theorem last_entry_does_not_win:
  "load_mapping (Some ex_mapping_dup) = Inr ex_lookup_dup
   \<and> snd (last (matches ex_lookup_dup (key_of ''amt_x'' ex_row1))) = Some ''99''
   \<and> merge_left (temp_df_col_clean ''id'' ''amt_x'' [ex_row1]) ex_lookup_dup
       = [(0, Some ''1'', Some ''10.2''), (0, Some ''1'', Some ''99'')]
   \<and> (fst (update_amt_columns ''id'' ex_lookup_dup [''amt_x''] ([ex_row1], [])) ! 0) ''amt_x''
       = Some ''10.2''"
  unfolding ex_load_mapping_dup ex_dup_update_amt_columns
  by (simp add: engine_eval ex_row1_def ex_lookup_dup_def)

section \<open>Degenerate keys of the mapping source\<close>

lemma ex_load_mapping_absent: "load_mapping (Some ex_mapping_absent) = Inr ex_lookup_absent"
  by code_simp

lemma ex_mapping_absent_cols:
  "amt_senf_col_mapping (map sanitize (columns ex_mapping_absent)) = Some ''Amt_Senf''"
  "cat_no_col_mapping (map sanitize (columns ex_mapping_absent)) = Some ''Cat_No''"
  "avg_value_col_mapping (map sanitize (columns ex_mapping_absent)) = Some ''Avg_Value''"
  by code_simp+

lemma ex_absent_process_columns:
  "process_columns ''id'' ex_lookup_absent [''amt_x'']
     ([(\<lambda>c. None)(''id'' := Some ''1'', ''amt_x'' := Some ''_'')], [])
   = Inr ([(\<lambda>c. None)(''id'' := Some ''1'', ''amt_x'' := Some ''7.5'')], [])"
  by (simp add: engine_eval ex_lookup_absent_def fun_eq_iff)

lemma ex_absent_update_amt_columns:
  "update_amt_columns ''id'' ex_lookup_absent [''amt_x'']
     ([(\<lambda>c. None)(''id'' := Some ''1'', ''amt_x'' := Some ''_'')], [])
   = ([(\<lambda>c. None)(''id'' := Some ''1'', ''amt_x'' := Some ''7.5'')], [])"
  by (simp add: engine_eval ex_lookup_absent_def fun_eq_iff)

lemma amt_column_first_char:
  assumes "take 4 (lower col) = ''amt_''"
  shows "\<exists>x xs. col = x # xs \<and> x \<noteq> CHR ''_''"
proof (cases col)
  case Nil
  with assms show ?thesis by (simp add: lower_def)
next
  case (Cons x xs)
  with assms have "lower_char x = CHR ''a''" by (simp add: lower_def)
  moreover have "lower_char (CHR ''_'') = CHR ''_''" by (simp add: lower_char_def)
  ultimately have "x \<noteq> CHR ''_''" by auto
  with Cons show ?thesis by simp
qed

lemma sender_absent_key_unmatched:
  "take 4 (lower col) = ''amt_'' \<Longrightarrow> key_of col r \<noteq> composite_key None cat_no"
  by (auto dest!: amt_column_first_char simp: key_of_def composite_key_def fillna_str_def)

text \<open>
  Claim C10, as amended. A row of the mapping source is not rejected for an absent
  sender code or category number: whenever the three columns of the mapping source are
  resolved, the lookup has one entry for every row, whatever its cells hold. An absent
  component counts as the empty string in the composite key, so the key is
  \<^verbatim>\<open>_CAT1\<close>-like, \<^verbatim>\<open>A_\<close>-like, or \<^verbatim>\<open>_\<close> when both are absent.

  Only the key of a row with a sender code can be matched. The key of a row without one
  begins with the separator, and the key of a cell begins with the name of its target
  column, which begins with \<^verbatim>\<open>amt_\<close>: no cell of the main data matches \<^verbatim>\<open>_CAT1\<close> or
  \<^verbatim>\<open>_\<close>. A key without a category number can be matched in both scripts: with the
  sender code \<^verbatim>\<open>amt_x_\<close> the key is \<^verbatim>\<open>amt_x__\<close>, which is the key of the value \<^verbatim>\<open>_\<close>
  in the column \<^verbatim>\<open>amt_x\<close>, and the cell takes the average value of the row.
\<close>

theorem absent_key_component_is_empty_string:
  "(\<forall>a c w. amt_senf_col_mapping (map sanitize (columns raw)) = Some a
        \<and> cat_no_col_mapping (map sanitize (columns raw)) = Some c
        \<and> avg_value_col_mapping (map sanitize (columns raw)) = Some w \<longrightarrow>
      load_mapping (Some raw) =
        Inr (map (\<lambda>r. (composite_key (r a) (r c), r w)) (rows (set_columns sanitize raw)))
      \<and> (\<exists>lk. load_mapping (Some raw) = Inr lk \<and> length lk = length (rows raw)))
   \<and> composite_key None (Some cat_no) = ''_'' @ cat_no
   \<and> composite_key (Some amt_senf) None = amt_senf @ ''_''
   \<and> composite_key None None = ''_''
   \<and> (take 4 (lower col) = ''amt_'' \<longrightarrow> key_of col r \<noteq> composite_key None cat_cell)
   \<and> composite_key (Some ''amt_x_'') None
       = key_of ''amt_x'' ((\<lambda>c. None)(''id'' := Some ''1'', ''amt_x'' := Some ''_''))
   \<and> process_columns ''id'' ex_lookup_absent [''amt_x'']
         ([(\<lambda>c. None)(''id'' := Some ''1'', ''amt_x'' := Some ''_'')], [])
       = Inr ([(\<lambda>c. None)(''id'' := Some ''1'', ''amt_x'' := Some ''7.5'')], [])
   \<and> update_amt_columns ''id'' ex_lookup_absent [''amt_x'']
         ([(\<lambda>c. None)(''id'' := Some ''1'', ''amt_x'' := Some ''_'')], [])
       = ([(\<lambda>c. None)(''id'' := Some ''1'', ''amt_x'' := Some ''7.5'')], [])"
proof (intro conjI impI allI)
  fix a c w
  assume r: "amt_senf_col_mapping (map sanitize (columns raw)) = Some a
        \<and> cat_no_col_mapping (map sanitize (columns raw)) = Some c
        \<and> avg_value_col_mapping (map sanitize (columns raw)) = Some w"
  then show l: "load_mapping (Some raw) =
        Inr (map (\<lambda>r. (composite_key (r a) (r c), r w)) (rows (set_columns sanitize raw)))"
    by (simp add: load_mapping_def Let_def set_columns_def)
  then show "\<exists>lk. load_mapping (Some raw) = Inr lk \<and> length lk = length (rows raw)"
    by (simp add: set_columns_def)
next
  assume "take 4 (lower col) = ''amt_''"
  then show "key_of col r \<noteq> composite_key None cat_cell"
    by (rule sender_absent_key_unmatched)
next
  show "process_columns ''id'' ex_lookup_absent [''amt_x'']
         ([(\<lambda>c. None)(''id'' := Some ''1'', ''amt_x'' := Some ''_'')], [])
       = Inr ([(\<lambda>c. None)(''id'' := Some ''1'', ''amt_x'' := Some ''7.5'')], [])"
    by (rule ex_absent_process_columns)
next
  show "update_amt_columns ''id'' ex_lookup_absent [''amt_x'']
         ([(\<lambda>c. None)(''id'' := Some ''1'', ''amt_x'' := Some ''_'')], [])
       = ([(\<lambda>c. None)(''id'' := Some ''1'', ''amt_x'' := Some ''7.5'')], [])"
    by (rule ex_absent_update_amt_columns)
qed (simp_all add: composite_key_def fillna_str_def key_of_def)

theorem absent_key_component_is_empty_string_witness:
  "amt_senf_col_mapping (map sanitize (columns ex_mapping_absent)) = Some ''Amt_Senf''
   \<and> cat_no_col_mapping (map sanitize (columns ex_mapping_absent)) = Some ''Cat_No''
   \<and> avg_value_col_mapping (map sanitize (columns ex_mapping_absent)) = Some ''Avg_Value''
   \<and> load_mapping (Some ex_mapping_absent) =
       Inr (map (\<lambda>r. (composite_key (r ''Amt_Senf'') (r ''Cat_No''), r ''Avg_Value''))
              (rows (set_columns sanitize ex_mapping_absent)))
   \<and> load_mapping (Some ex_mapping_absent)
       = Inr [(''_CAT1'', Some ''1.5''), (''amt_x__'', Some ''7.5''), (''_'', Some ''3'')]
   \<and> length (rows ex_mapping_absent) = 3
   \<and> take 4 (lower ''amt_x'') = ''amt_''
   \<and> key_of ''amt_x'' ((\<lambda>c. None)(''id'' := Some ''1'', ''amt_x'' := Some ''_''))
       \<noteq> composite_key None (Some ''CAT1'')
   \<and> key_of ''amt_x'' ((\<lambda>c. None)(''id'' := Some ''1'', ''amt_x'' := Some ''_''))
       \<noteq> composite_key None None"
proof -
  note t = absent_key_component_is_empty_string[where raw = ex_mapping_absent
      and col = "''amt_x''"
      and r = "(\<lambda>c. None)(''id'' := Some ''1'', ''amt_x'' := Some ''_'')"]
  have p: "take 4 (lower ''amt_x'') = ''amt_''" by (simp add: lower_def lower_char_def)
  from t[where cat_cell = "Some ''CAT1''"] ex_mapping_absent_cols
  have l: "load_mapping (Some ex_mapping_absent) =
       Inr (map (\<lambda>r. (composite_key (r ''Amt_Senf'') (r ''Cat_No''), r ''Avg_Value''))
              (rows (set_columns sanitize ex_mapping_absent)))"
    by blast
  from t[where cat_cell = "Some ''CAT1''"] p
  have a: "key_of ''amt_x'' ((\<lambda>c. None)(''id'' := Some ''1'', ''amt_x'' := Some ''_''))
       \<noteq> composite_key None (Some ''CAT1'')"
    by blast
  from t[where cat_cell = None] p
  have b: "key_of ''amt_x'' ((\<lambda>c. None)(''id'' := Some ''1'', ''amt_x'' := Some ''_''))
       \<noteq> composite_key None None"
    by blast
  have e: "load_mapping (Some ex_mapping_absent)
       = Inr [(''_CAT1'', Some ''1.5''), (''amt_x__'', Some ''7.5''), (''_'', Some ''3'')]"
    using ex_load_mapping_absent by (simp add: ex_lookup_absent_def)
  have n: "length (rows ex_mapping_absent) = 3" by (simp add: ex_mapping_absent_def)
  from ex_mapping_absent_cols l e n p a b show ?thesis by blast
qed

text \<open>The claim as it was stated fails for the keys of rows without a sender code: the
  lookup of the example holds the keys \<^verbatim>\<open>_CAT1\<close> and \<^verbatim>\<open>_\<close>, and no cell of a target
  column, whatever its value, has one of them as its key.\<close>

theorem sender_absent_key_never_matched:
  "load_mapping (Some ex_mapping_absent) = Inr ex_lookup_absent
   \<and> map fst ex_lookup_absent = [''_CAT1'', ''amt_x__'', ''_'']
   \<and> \<not> (\<exists>col r. take 4 (lower col) = ''amt_''
              \<and> (key_of col r = ''_CAT1'' \<or> key_of col r = ''_''))"
proof -
  have "key_of col r \<noteq> ''_CAT1''" "key_of col r \<noteq> ''_''"
    if "take 4 (lower col) = ''amt_''" for col r
    using sender_absent_key_unmatched[OF that, of r "Some ''CAT1''"]
      sender_absent_key_unmatched[OF that, of r None]
    by (simp_all add: composite_key_def fillna_str_def)
  then show ?thesis
    using ex_load_mapping_absent by (auto simp: ex_lookup_absent_def)
qed

section \<open>Auxiliary facts about the writer and the run\<close>

lemmas sanitize_eval = sanitize_def strip_us_def is_word_char_def word_chars_def

lemma ex_load_mapping: "load_mapping (Some ex_mapping) = Inr ex_lookup"
  by code_simp

lemma ex_main_cols: "map sanitize (columns ex_main) = [''id'', ''amt_x'']"
  by (simp add: ex_main_def sanitize_eval)

lemma ex_main_id: "id_column_data (columns ex_main) = Inr ''id''"
  by (simp add: id_column_data_def pick_id_def ex_main_def sanitize_eval)

lemma ex_main_reader: "csv_reader ex_main = [ex_main]"
  by (simp add: csv_reader_def ex_main_def split_rows.simps chunk_size_def)

lemma ex_run:
  "run (Some ex_mapping) (Some ex_main) =
     Inr \<lparr>output_file = Some [Header [''id'', ''amt_x''], Data [Some ''1'', Some ''10.2'']],
          nans_file = Some [Header [''id'']],
          is_first_chunk = False, is_first_unmapped_chunk = True, diagnostics = []\<rparr>"
  unfolding run_def ex_load_mapping
  by (simp add: ex_main_id ex_main_cols ex_main_reader Let_def)
     (simp add: ex_main_def ex_row1_def ex_lookup_def process_chunk_def set_columns_def
        sanitize_eval engine_eval amt_columns_def lower_def lower_char_def initial_state_def
        header_warnings_def write_chunk_def write_unmapped_def id_first_def to_csv_def
        final_check_def)

lemma ex_run_sql:
  "run_sql (Some ex_mapping) (Some ex_main) None =
     Inr \<lparr>final_output = Some [Header [''id'', ''amt_x''], Data [Some ''1'', Some ''10.2'']],
          unmapped_output = None\<rparr>"
  unfolding run_sql_def ex_load_mapping
  by (simp add: ex_main_def ex_row1_def ex_lookup_def set_columns_def pick_id_def
        sanitize_eval engine_eval amt_columns_def lower_def lower_char_def Let_def)


lemma process_chunk_skip:
  "skipped id_col raw \<Longrightarrow>
   process_chunk id_col amt lk i raw s =
     Inr (s\<lparr>diagnostics := diagnostics s @ [IdNotInChunk id_col (i + 1)]\<rparr>)"
  by (simp add: process_chunk_def skipped_def Let_def)

lemma process_chunk_processed:
  "\<not> skipped id_col raw \<Longrightarrow>
   process_chunk id_col amt lk i raw s =
     (case process_columns id_col lk
             (filter (\<lambda>col. col \<in> set (columns (set_columns sanitize raw))) amt)
             (rows (set_columns sanitize raw), []) of
        Inl e \<Rightarrow> Inl e
      | Inr (rs, unmapped) \<Rightarrow>
          Inr (write_chunk
                 \<lparr>columns = id_first id_col (columns (set_columns sanitize raw)), rows = rs\<rparr>
                 (write_unmapped id_col unmapped s)))"
  by (simp add: process_chunk_def skipped_def Let_def)

lemma write_unmapped_output [simp]:
  "output_file (write_unmapped id_col unmapped s) = output_file s"
  "is_first_chunk (write_unmapped id_col unmapped s) = is_first_chunk s"
  by (simp_all add: write_unmapped_def Let_def)

lemma write_chunk_nans [simp]:
  "nans_file (write_chunk df s) = nans_file s"
  "is_first_unmapped_chunk (write_chunk df s) = is_first_unmapped_chunk s"
  by (simp_all add: write_chunk_def)

lemma write_unmapped_empty [simp]: "write_unmapped id_col [] s = s"
  by (simp add: write_unmapped_def)

lemma data_rows_write_chunk:
  "data_rows (output_file (write_chunk df s)) =
     (if is_first_chunk s then [] else data_rows (output_file s))
     @ map (\<lambda>r. map r (columns df)) (rows df)"
  by (simp add: write_chunk_def to_csv_def data_rows_def comp_def split: option.splits)

lemma write_chunk_not_first [simp]: "\<not> is_first_chunk (write_chunk df s)"
  by (simp add: write_chunk_def)

lemma length_rows_set_columns [simp]: "length (rows (set_columns f df)) = length (rows df)"
  by (simp add: set_columns_def)

lemma columns_set_columns [simp]: "columns (set_columns f df) = map f (columns df)"
  by (simp add: set_columns_def)

text \<open>What a chunk that is not skipped leaves behind.\<close>

lemma process_chunk_Inr:
  assumes "\<not> skipped id_col raw" and "process_chunk id_col amt lk i raw s = Inr s'"
  shows "\<exists>rs unmapped.
           process_columns id_col lk (filter (\<lambda>col. col \<in> set (map sanitize (columns raw))) amt)
             (rows (set_columns sanitize raw), []) = Inr (rs, unmapped)
           \<and> unmapped = chunk_unmapped id_col amt lk raw
           \<and> length rs = length (rows raw)
           \<and> (\<forall>j < length (rows raw). \<forall>c. c \<notin> set amt \<longrightarrow>
                  (rs ! j) c = (rows (set_columns sanitize raw) ! j) c)
           \<and> s' = write_chunk \<lparr>columns = id_first id_col (map sanitize (columns raw)), rows = rs\<rparr>
                    (write_unmapped id_col unmapped s)"
proof -
  let ?cols = "filter (\<lambda>col. col \<in> set (map sanitize (columns raw))) amt"
  let ?rows = "rows (set_columns sanitize raw)"
  from assms obtain rs unmapped where
    pc: "process_columns id_col lk ?cols (?rows, []) = Inr (rs, unmapped)"
    and s': "s' = write_chunk \<lparr>columns = id_first id_col (map sanitize (columns raw)), rows = rs\<rparr>
                    (write_unmapped id_col unmapped s)"
    by (auto simp: process_chunk_processed split: sum.splits)
  from process_columns_frame[OF pc]
  have len: "length rs = length (rows raw)"
    and keep: "\<forall>j < length (rows raw). \<forall>c. c \<notin> set ?cols \<longrightarrow> (rs ! j) c = (?rows ! j) c"
    by simp_all
  from assms(1) pc have un: "unmapped = chunk_unmapped id_col amt lk raw"
    by (simp add: chunk_unmapped_def skipped_def Let_def)
  from keep have "\<forall>j < length (rows raw). \<forall>c. c \<notin> set amt \<longrightarrow> (rs ! j) c = (?rows ! j) c"
    by simp
  with pc s' len un show ?thesis by blast
qed

lemma chunk_unmapped_skipped: "skipped id_col raw \<Longrightarrow> chunk_unmapped id_col amt lk raw = []"
  by (simp add: chunk_unmapped_def skipped_def Let_def)

lemma count_rows_Cons [simp]:
  "count_rows (df # chunks) = length (rows df) + count_rows chunks"
  "count_rows [] = 0"
  by (simp_all add: count_rows_def)

lemma count_rows_filter_le: "count_rows (filter P chunks) \<le> count_rows chunks"
  by (induction chunks) auto

lemma process_chunks_rows:
  "process_chunks id_col amt lk i chunks s = Inr s' \<Longrightarrow>
   is_first_chunk s \<longrightarrow> output_file s = None \<Longrightarrow>
   length (data_rows (output_file s')) + count_rows (filter (skipped id_col) chunks)
     = length (data_rows (output_file s)) + count_rows chunks
   \<and> (is_first_chunk s' \<longrightarrow> output_file s' = None)"
proof (induction chunks arbitrary: i s)
  case Nil
  then show ?case by simp
next
  case (Cons raw chunks)
  from Cons.prems(1) obtain s1 where
    step: "process_chunk id_col amt lk i raw s = Inr s1"
    and rest: "process_chunks id_col amt lk (Suc i) chunks s1 = Inr s'"
    by (auto split: sum.splits)
  show ?case
  proof (cases "skipped id_col raw")
    case True
    with step have s1: "s1 = s\<lparr>diagnostics := diagnostics s @ [IdNotInChunk id_col (i + 1)]\<rparr>"
      by (simp add: process_chunk_skip)
    with Cons.prems(2) have "is_first_chunk s1 \<longrightarrow> output_file s1 = None" by simp
    from Cons.IH[OF rest this] s1 True show ?thesis by simp
  next
    case False
    from process_chunk_Inr[OF False step] obtain rs unmapped where
      len: "length rs = length (rows raw)"
      and s1: "s1 = write_chunk \<lparr>columns = id_first id_col (map sanitize (columns raw)), rows = rs\<rparr>
                    (write_unmapped id_col unmapped s)"
      by blast
    have nf: "is_first_chunk s1 \<longrightarrow> output_file s1 = None" by (simp add: s1)
    have "data_rows (output_file s1) =
        (if is_first_chunk s then [] else data_rows (output_file s))
        @ map (\<lambda>r. map r (id_first id_col (map sanitize (columns raw)))) rs"
      by (simp add: s1 data_rows_write_chunk)
    with Cons.prems(2) len
    have "length (data_rows (output_file s1)) = length (data_rows (output_file s)) + length (rows raw)"
      by (auto simp: data_rows_def)
    with Cons.IH[OF rest nf] False show ?thesis by simp
  qed
qed

lemma process_chunks_no_unmapped:
  "process_chunks id_col amt lk i chunks s = Inr s' \<Longrightarrow>
   \<forall>raw \<in> set chunks. chunk_unmapped id_col amt lk raw = [] \<Longrightarrow>
   nans_file s' = nans_file s \<and> is_first_unmapped_chunk s' = is_first_unmapped_chunk s"
proof (induction chunks arbitrary: i s)
  case Nil
  then show ?case by simp
next
  case (Cons raw chunks)
  from Cons.prems(1) obtain s1 where
    step: "process_chunk id_col amt lk i raw s = Inr s1"
    and rest: "process_chunks id_col amt lk (Suc i) chunks s1 = Inr s'"
    by (auto split: sum.splits)
  from Cons.prems(2) have e: "chunk_unmapped id_col amt lk raw = []"
    and es: "\<forall>raw \<in> set chunks. chunk_unmapped id_col amt lk raw = []" by simp_all
  have "nans_file s1 = nans_file s \<and> is_first_unmapped_chunk s1 = is_first_unmapped_chunk s"
  proof (cases "skipped id_col raw")
    case True
    with step show ?thesis by (auto simp: process_chunk_skip)
  next
    case False
    from process_chunk_Inr[OF False step] e show ?thesis by auto
  qed
  with Cons.IH[OF rest es] show ?case by simp
qed

lemma concat_split_rows: "concat (split_rows rs) = rs"
  by (induction rs rule: split_rows.induct) (subst split_rows.simps, simp)

lemma count_rows_csv_reader: "count_rows (csv_reader main) = length (rows main)"
proof -
  have "sum_list (map length xss) = length (concat xss)" for xss :: "row list list"
    by (induction xss) auto
  then have "sum_list (map length (split_rows (rows main))) = length (rows main)"
    by (simp add: concat_split_rows)
  then show ?thesis
    by (simp add: count_rows_def csv_reader_def comp_def)
qed

lemma run_Inr:
  assumes "run mapping_file (Some main) = Inr s"
  shows "\<exists>lk id_col s1. load_mapping mapping_file = Inr lk
           \<and> id_column_data (columns main) = Inr id_col
           \<and> process_chunks id_col (amt_columns (map sanitize (columns main))) lk 0
                 (csv_reader main) (initial_state (map sanitize (columns main)) id_col) = Inr s1
           \<and> s = final_check id_col s1"
  using assms by (auto simp: run_def Let_def split: sum.splits)

lemma ex_chunk_unmapped:
  "chunk_unmapped ''id'' (amt_columns (map sanitize (columns ex_main))) ex_lookup ex_main = []"
  unfolding ex_main_cols
  by (simp add: chunk_unmapped_def ex_main_def ex_row1_def ex_lookup_def set_columns_def
        sanitize_eval engine_eval amt_columns_def lower_def lower_char_def)

section \<open>The report without unmapped identifiers\<close>

text \<open>
  Claim C2, as amended. In 9_code_optimized.py, when the run is not aborted and every
  chunk hands an empty set of unmapped identifiers to the writer (a skipped chunk hands
  none), the report exists at the end of the run and consists of one header line, which
  names the identifier column, and of no data line.

  In code_5.py step 6 writes the report only when the table of unmapped values has a
  row: after a run the report is the file that was there before the run, or it has at
  least one data line.
\<close>

theorem report_with_header_only:
  "(run mapping_file (Some main) = Inr s \<and> load_mapping mapping_file = Inr lk
      \<and> id_column_data (columns main) = Inr id_col
      \<and> (\<forall>raw \<in> set (csv_reader main).
            chunk_unmapped id_col (amt_columns (map sanitize (columns main))) lk raw = []) \<longrightarrow>
      nans_file s = Some [Header [id_col]]
      \<and> header_lines (nans_file s) = [[id_col]] \<and> data_rows (nans_file s) = [])
   \<and> (run_sql mapping_file main_data_file old_unmapped = Inr res \<longrightarrow>
        unmapped_output res = old_unmapped \<or> data_rows (unmapped_output res) \<noteq> [])"
proof (intro conjI impI)
  assume a: "run mapping_file (Some main) = Inr s \<and> load_mapping mapping_file = Inr lk
      \<and> id_column_data (columns main) = Inr id_col
      \<and> (\<forall>raw \<in> set (csv_reader main).
            chunk_unmapped id_col (amt_columns (map sanitize (columns main))) lk raw = [])"
  from run_Inr[of mapping_file main s] a obtain s1 where
    loop: "process_chunks id_col (amt_columns (map sanitize (columns main))) lk 0
                 (csv_reader main) (initial_state (map sanitize (columns main)) id_col) = Inr s1"
    and s: "s = final_check id_col s1"
    by auto
  from process_chunks_no_unmapped[OF loop] a
  have "nans_file s1 = None" "is_first_unmapped_chunk s1"
    by (simp_all add: initial_state_def)
  with s show f: "nans_file s = Some [Header [id_col]]"
    by (simp add: final_check_def to_csv_def)
  from f show "header_lines (nans_file s) = [[id_col]]" by (simp add: header_lines_def)
  from f show "data_rows (nans_file s) = []" by (simp add: data_rows_def)
next
  assume "run_sql mapping_file main_data_file old_unmapped = Inr res"
  then show "unmapped_output res = old_unmapped \<or> data_rows (unmapped_output res) \<noteq> []"
    by (auto simp: run_sql_def Let_def data_rows_def neq_Nil_conv
        split: sum.splits option.splits prod.splits if_splits)
qed

theorem report_with_header_only_witness:
  "run (Some ex_mapping) (Some ex_main) =
     Inr \<lparr>output_file = Some [Header [''id'', ''amt_x''], Data [Some ''1'', Some ''10.2'']],
          nans_file = Some [Header [''id'']],
          is_first_chunk = False, is_first_unmapped_chunk = True, diagnostics = []\<rparr>
   \<and> load_mapping (Some ex_mapping) = Inr ex_lookup
   \<and> id_column_data (columns ex_main) = Inr ''id''
   \<and> csv_reader ex_main = [ex_main]
   \<and> chunk_unmapped ''id'' (amt_columns (map sanitize (columns ex_main))) ex_lookup ex_main = []
   \<and> header_lines (Some [Header [''id'']]) = [[''id'']]
   \<and> data_rows (Some [Header [''id'']]) = []
   \<and> run_sql (Some ex_mapping) (Some ex_main) None =
       Inr \<lparr>final_output = Some [Header [''id'', ''amt_x''], Data [Some ''1'', Some ''10.2'']],
            unmapped_output = None\<rparr>"
  using report_with_header_only[of "Some ex_mapping" ex_main _ ex_lookup "''id''"
      "Some ex_main" None]
    ex_run ex_load_mapping ex_main_id ex_main_reader ex_chunk_unmapped ex_run_sql
  by (simp add: header_lines_def data_rows_def)

text \<open>The claim as it was stated fails on code_5.py: the only cell of the main file hits
  the lookup, nothing is unmapped, no report file was there before the run, and none is
  there after it.\<close>

theorem sql_no_report_without_unmapped:
  "run_sql (Some ex_mapping) (Some ex_main) None =
     Inr \<lparr>final_output = Some [Header [''id'', ''amt_x''], Data [Some ''1'', Some ''10.2'']],
          unmapped_output = None\<rparr>"
  by (rule ex_run_sql)

section \<open>Row counts of the primary output\<close>

lemma ex_skipped: "skipped ''id'' ex_chunk_no_id" "\<not> skipped ''id'' ex_main"
  by (simp_all add: skipped_def ex_chunk_no_id_def ex_main_def sanitize_eval)

lemma ex_process_chunks:
  "process_chunks ''id'' [''amt_x''] ex_lookup 0 [ex_chunk_no_id, ex_main]
     (initial_state [''id'', ''amt_x''] ''id'') =
   Inr \<lparr>output_file = Some [Header [''id'', ''amt_x''], Data [Some ''1'', Some ''10.2'']],
        nans_file = None, is_first_chunk = False, is_first_unmapped_chunk = True,
        diagnostics = [IdNotInChunk ''id'' 1]\<rparr>"
  by (simp add: process_chunk_skip ex_skipped)
     (simp add: ex_main_def ex_row1_def ex_lookup_def process_chunk_def set_columns_def
        sanitize_eval engine_eval amt_columns_def lower_def lower_char_def initial_state_def
        header_warnings_def write_chunk_def write_unmapped_def id_first_def to_csv_def)

lemma ex_process_chunk:
  "process_chunk ''id'' [''amt_x''] ex_lookup 1 ex_main (initial_state [''id'', ''amt_x''] ''id'') =
   Inr \<lparr>output_file = Some [Header [''id'', ''amt_x''], Data [Some ''1'', Some ''10.2'']],
        nans_file = None, is_first_chunk = False, is_first_unmapped_chunk = True,
        diagnostics = []\<rparr>"
  by (simp add: ex_main_def ex_row1_def ex_lookup_def process_chunk_def set_columns_def
        sanitize_eval engine_eval amt_columns_def lower_def lower_char_def initial_state_def
        header_warnings_def write_chunk_def write_unmapped_def id_first_def to_csv_def)

text \<open>
  Claim C7. For a run of 9_code_optimized.py that is not aborted, the primary output has
  as many data rows as the main input, less the rows of the chunks that were skipped
  because the identifier column is not among their columns. This holds of the loop over
  any sequence of chunks, and of the run, whose chunks partition the rows of the main
  file. A chunk that is not skipped appends one data row for each of its rows, in the
  order of the chunk, and the cells outside the target columns are those of the input
  row: no row is dropped and none is written twice.
\<close>

theorem output_rows_of_processed_chunks:
  "(process_chunks id_col amt lk i chunks s0 = Inr s'
      \<and> (is_first_chunk s0 \<longrightarrow> output_file s0 = None) \<longrightarrow>
      length (data_rows (output_file s')) =
        length (data_rows (output_file s0))
        + (count_rows chunks - count_rows (filter (skipped id_col) chunks)))
   \<and> (run mapping_file (Some main) = Inr s \<and> id_column_data (columns main) = Inr id_col \<longrightarrow>
        length (data_rows (output_file s)) =
          length (rows main) - count_rows (filter (skipped id_col) (csv_reader main)))
   \<and> (\<not> skipped id_col raw \<and> process_chunk id_col amt lk i raw s1 = Inr s2
        \<and> (is_first_chunk s1 \<longrightarrow> output_file s1 = None) \<longrightarrow>
        (\<exists>rs. length rs = length (rows raw)
           \<and> data_rows (output_file s2) =
               data_rows (output_file s1)
               @ map (\<lambda>r. map r (id_first id_col (map sanitize (columns raw)))) rs
           \<and> (\<forall>j < length (rows raw). \<forall>c. c \<notin> set amt \<longrightarrow>
                  (rs ! j) c = (rows (set_columns sanitize raw) ! j) c)))"
proof (intro conjI impI)
  assume a: "process_chunks id_col amt lk i chunks s0 = Inr s'
      \<and> (is_first_chunk s0 \<longrightarrow> output_file s0 = None)"
  then have "length (data_rows (output_file s')) + count_rows (filter (skipped id_col) chunks)
     = length (data_rows (output_file s0)) + count_rows chunks"
    using process_chunks_rows[of id_col amt lk i chunks s0 s'] by blast
  with count_rows_filter_le[of "skipped id_col" chunks]
  show "length (data_rows (output_file s')) =
        length (data_rows (output_file s0))
        + (count_rows chunks - count_rows (filter (skipped id_col) chunks))"
    by arith
next
  assume a: "run mapping_file (Some main) = Inr s \<and> id_column_data (columns main) = Inr id_col"
  from run_Inr[of mapping_file main s] a obtain lk' s1' where
    loop: "process_chunks id_col (amt_columns (map sanitize (columns main))) lk' 0
                 (csv_reader main) (initial_state (map sanitize (columns main)) id_col) = Inr s1'"
    and s: "s = final_check id_col s1'"
    by auto
  have "output_file s = output_file s1'" by (simp add: s final_check_def)
  moreover from process_chunks_rows[OF loop]
  have "length (data_rows (output_file s1'))
          + count_rows (filter (skipped id_col) (csv_reader main))
        = count_rows (csv_reader main)"
    by (simp add: initial_state_def data_rows_def)
  ultimately show "length (data_rows (output_file s)) =
          length (rows main) - count_rows (filter (skipped id_col) (csv_reader main))"
    by (simp add: count_rows_csv_reader[symmetric])
next
  assume a: "\<not> skipped id_col raw \<and> process_chunk id_col amt lk i raw s1 = Inr s2
        \<and> (is_first_chunk s1 \<longrightarrow> output_file s1 = None)"
  from a process_chunk_Inr[of id_col raw amt lk i s1 s2] obtain rs unmapped where
    len: "length rs = length (rows raw)"
    and keep: "\<forall>j < length (rows raw). \<forall>c. c \<notin> set amt \<longrightarrow>
                  (rs ! j) c = (rows (set_columns sanitize raw) ! j) c"
    and s2: "s2 = write_chunk \<lparr>columns = id_first id_col (map sanitize (columns raw)), rows = rs\<rparr>
                    (write_unmapped id_col unmapped s1)"
    by blast
  have d: "data_rows (output_file s2) =
               (if is_first_chunk s1 then [] else data_rows (output_file s1))
               @ map (\<lambda>r. map r (id_first id_col (map sanitize (columns raw)))) rs"
    by (simp add: s2 data_rows_write_chunk)
  from a have "is_first_chunk s1 \<longrightarrow> data_rows (output_file s1) = []"
    by (simp add: data_rows_def)
  with d have "data_rows (output_file s2) =
               data_rows (output_file s1)
               @ map (\<lambda>r. map r (id_first id_col (map sanitize (columns raw)))) rs"
    by simp
  with len keep show "\<exists>rs. length rs = length (rows raw)
           \<and> data_rows (output_file s2) =
               data_rows (output_file s1)
               @ map (\<lambda>r. map r (id_first id_col (map sanitize (columns raw)))) rs
           \<and> (\<forall>j < length (rows raw). \<forall>c. c \<notin> set amt \<longrightarrow>
                  (rs ! j) c = (rows (set_columns sanitize raw) ! j) c)"
    by blast
qed

theorem output_rows_of_processed_chunks_witness:
  "process_chunks ''id'' [''amt_x''] ex_lookup 0 [ex_chunk_no_id, ex_main]
     (initial_state [''id'', ''amt_x''] ''id'') =
     Inr \<lparr>output_file = Some [Header [''id'', ''amt_x''], Data [Some ''1'', Some ''10.2'']],
          nans_file = None, is_first_chunk = False, is_first_unmapped_chunk = True,
          diagnostics = [IdNotInChunk ''id'' 1]\<rparr>
   \<and> output_file (initial_state [''id'', ''amt_x''] ''id'') = None
   \<and> count_rows [ex_chunk_no_id, ex_main] = 3
   \<and> count_rows (filter (skipped ''id'') [ex_chunk_no_id, ex_main]) = 2
   \<and> length (data_rows (Some [Header [''id'', ''amt_x''], Data [Some ''1'', Some ''10.2'']])) = 1
   \<and> run (Some ex_mapping) (Some ex_main) =
       Inr \<lparr>output_file = Some [Header [''id'', ''amt_x''], Data [Some ''1'', Some ''10.2'']],
            nans_file = Some [Header [''id'']],
            is_first_chunk = False, is_first_unmapped_chunk = True, diagnostics = []\<rparr>
   \<and> id_column_data (columns ex_main) = Inr ''id''
   \<and> length (rows ex_main) = 1
   \<and> \<not> skipped ''id'' ex_main
   \<and> process_chunk ''id'' [''amt_x''] ex_lookup 1 ex_main (initial_state [''id'', ''amt_x''] ''id'') =
       Inr \<lparr>output_file = Some [Header [''id'', ''amt_x''], Data [Some ''1'', Some ''10.2'']],
            nans_file = None, is_first_chunk = False, is_first_unmapped_chunk = True,
            diagnostics = []\<rparr>"
proof -
  have f: "filter (skipped ''id'') [ex_chunk_no_id, ex_main] = [ex_chunk_no_id]"
    by (simp add: ex_skipped)
  have c: "count_rows [ex_chunk_no_id, ex_main] = 3"
    "count_rows (filter (skipped ''id'') [ex_chunk_no_id, ex_main]) = 2"
    "length (rows ex_main) = 1"
    "output_file (initial_state [''id'', ''amt_x''] ''id'') = None"
    unfolding f by (simp_all add: ex_chunk_no_id_def ex_main_def initial_state_def)
  have h: "is_first_chunk (initial_state [''id'', ''amt_x''] ''id'')
           \<longrightarrow> output_file (initial_state [''id'', ''amt_x''] ''id'') = None"
    by (simp add: initial_state_def)
  note k = output_rows_of_processed_chunks[of "''id''" "[''amt_x'']" ex_lookup 0
      "[ex_chunk_no_id, ex_main]" "initial_state [''id'', ''amt_x''] ''id''" _
      "Some ex_mapping" ex_main _ ex_main "initial_state [''id'', ''amt_x''] ''id''",
      THEN conjunct1, THEN mp, OF conjI[OF ex_process_chunks h]]
  have "data_rows None = []" by (simp add: data_rows_def)
  with k c have l: "length (data_rows (Some [Header [''id'', ''amt_x''],
                      Data [Some ''1'', Some ''10.2'']])) = 1"
    by simp
  from ex_process_chunks c l ex_run ex_main_id ex_skipped ex_process_chunk
  show ?thesis by blast
qed

section \<open>Errors that abort the run and the one that does not\<close>

lemma load_mapping_unresolved:
  "amt_senf_col_mapping (map sanitize (columns raw)) = None
   \<or> cat_no_col_mapping (map sanitize (columns raw)) = None
   \<or> avg_value_col_mapping (map sanitize (columns raw)) = None \<Longrightarrow>
   load_mapping (Some raw) = Inl ValueError"
  by (auto simp: load_mapping_def Let_def split: option.splits)

lemma ex_unresolved:
  "avg_value_col_mapping (map sanitize (columns \<lparr>columns = [''Amt Senf'', ''Cat No''], rows = []\<rparr>))
     = None"
  by (simp add: avg_value_col_mapping_def sanitize_eval lower_def lower_char_def)

text \<open>
  Claim C8. In 9_code_optimized.py a missing mapping file, mapping columns that cannot
  be resolved, a missing main file and an exception raised for the header or while a
  chunk is processed each end the run with that error: no later chunk is processed and
  the final step is not reached. A chunk without the identifier column is the one case
  that is handled where it occurs: a diagnostic with the number of the chunk is recorded,
  the output files and flags stay as they are, and the loop goes on with the next chunk.
  The step for a chunk returns normally only when the chunk is skipped in this way or
  when its columns were processed without an exception. The errors of the model are the
  \<^verbatim>\<open>FileNotFoundError\<close> of the two reads, the \<^verbatim>\<open>ValueError\<close> of lines 54 and 205,
  the \<^verbatim>\<open>IndexError\<close> of line 103, the \<^verbatim>\<open>AttributeError\<close> of line 155 and the
  \<^verbatim>\<open>KeyError\<close> of line 191.
\<close>

theorem only_missing_id_column_is_recovered:
  "run None main_data_file = Inl FileNotFoundError
   \<and> (amt_senf_col_mapping (map sanitize (columns raw_mapping)) = None
        \<or> cat_no_col_mapping (map sanitize (columns raw_mapping)) = None
        \<or> avg_value_col_mapping (map sanitize (columns raw_mapping)) = None \<longrightarrow>
        run (Some raw_mapping) main_data_file = Inl ValueError)
   \<and> (load_mapping mapping_file = Inr lk \<longrightarrow> run mapping_file None = Inl FileNotFoundError)
   \<and> (load_mapping mapping_file = Inr lk \<and> id_column_data (columns main) = Inl e \<longrightarrow>
        run mapping_file (Some main) = Inl e)
   \<and> (load_mapping mapping_file = Inr lk \<and> id_column_data (columns main) = Inr id_col
        \<and> process_chunks id_col (amt_columns (map sanitize (columns main))) lk 0
              (csv_reader main) (initial_state (map sanitize (columns main)) id_col) = Inl e \<longrightarrow>
        run mapping_file (Some main) = Inl e)
   \<and> (process_chunk id_col amt lk i raw s = Inl e \<longrightarrow>
        process_chunks id_col amt lk i (raw # chunks) s = Inl e)
   \<and> (skipped id_col raw \<longrightarrow>
        process_chunks id_col amt lk i (raw # chunks) s =
          process_chunks id_col amt lk (Suc i) chunks
            (s\<lparr>diagnostics := diagnostics s @ [IdNotInChunk id_col (i + 1)]\<rparr>))
   \<and> (process_chunk id_col amt lk i raw s = Inr s' \<longrightarrow>
        skipped id_col raw
        \<or> (\<exists>rs unmapped.
              process_columns id_col lk
                (filter (\<lambda>col. col \<in> set (map sanitize (columns raw))) amt)
                (rows (set_columns sanitize raw), []) = Inr (rs, unmapped)))"
proof (intro conjI impI)
  show "run None main_data_file = Inl FileNotFoundError"
    by (simp add: run_def load_mapping_def)
next
  assume "amt_senf_col_mapping (map sanitize (columns raw_mapping)) = None
        \<or> cat_no_col_mapping (map sanitize (columns raw_mapping)) = None
        \<or> avg_value_col_mapping (map sanitize (columns raw_mapping)) = None"
  from load_mapping_unresolved[OF this]
  show "run (Some raw_mapping) main_data_file = Inl ValueError"
    by (simp add: run_def)
next
  assume "load_mapping mapping_file = Inr lk"
  then show "run mapping_file None = Inl FileNotFoundError"
    by (simp add: run_def)
next
  assume "load_mapping mapping_file = Inr lk \<and> id_column_data (columns main) = Inl e"
  then show "run mapping_file (Some main) = Inl e"
    by (simp add: run_def)
next
  assume "load_mapping mapping_file = Inr lk \<and> id_column_data (columns main) = Inr id_col
        \<and> process_chunks id_col (amt_columns (map sanitize (columns main))) lk 0
              (csv_reader main) (initial_state (map sanitize (columns main)) id_col) = Inl e"
  then show "run mapping_file (Some main) = Inl e"
    by (simp add: run_def Let_def)
next
  assume "process_chunk id_col amt lk i raw s = Inl e"
  then show "process_chunks id_col amt lk i (raw # chunks) s = Inl e"
    by simp
next
  assume "skipped id_col raw"
  then show "process_chunks id_col amt lk i (raw # chunks) s =
          process_chunks id_col amt lk (Suc i) chunks
            (s\<lparr>diagnostics := diagnostics s @ [IdNotInChunk id_col (i + 1)]\<rparr>)"
    by (simp add: process_chunk_skip)
next
  assume a: "process_chunk id_col amt lk i raw s = Inr s'"
  show "skipped id_col raw
        \<or> (\<exists>rs unmapped.
              process_columns id_col lk
                (filter (\<lambda>col. col \<in> set (map sanitize (columns raw))) amt)
                (rows (set_columns sanitize raw), []) = Inr (rs, unmapped))"
  proof (cases "skipped id_col raw")
    case True
    then show ?thesis by simp
  next
    case False
    from process_chunk_Inr[OF False a] show ?thesis by blast
  qed
qed

lemma ex_header_error: "id_column_data (columns \<lparr>columns = [], rows = []\<rparr>) = Inl IndexError"
  by (simp add: id_column_data_def pick_id_def)

lemma ex_dup_chunk:
  "process_chunk ''id'' [''amt_x''] ex_lookup_dup 0 ex_main s = Inl ValueError"
  by (simp add: ex_main_def ex_row1_def ex_lookup_dup_def process_chunk_def set_columns_def
        sanitize_eval engine_eval)

lemma ex_dup_run: "run (Some ex_mapping_dup) (Some ex_main) = Inl ValueError"
  unfolding run_def ex_load_mapping_dup
  by (simp add: ex_main_id ex_main_cols ex_main_reader Let_def)
     (simp add: ex_main_def ex_row1_def ex_lookup_dup_def process_chunk_def set_columns_def
        sanitize_eval engine_eval amt_columns_def lower_def lower_char_def)

theorem only_missing_id_column_is_recovered_witness:
  "avg_value_col_mapping (map sanitize (columns \<lparr>columns = [''Amt Senf'', ''Cat No''], rows = []\<rparr>))
     = None
   \<and> run (Some \<lparr>columns = [''Amt Senf'', ''Cat No''], rows = []\<rparr>) (Some ex_main) = Inl ValueError
   \<and> load_mapping (Some ex_mapping_dup) = Inr ex_lookup_dup
   \<and> run (Some ex_mapping_dup) None = Inl FileNotFoundError
   \<and> id_column_data (columns \<lparr>columns = [], rows = []\<rparr>) = Inl IndexError
   \<and> run (Some ex_mapping_dup) (Some \<lparr>columns = [], rows = []\<rparr>) = Inl IndexError
   \<and> run (Some ex_mapping_dup) (Some ex_main) = Inl ValueError
   \<and> process_chunk ''id'' [''amt_x''] ex_lookup_dup 0 ex_main
         (initial_state [''id'', ''amt_x''] ''id'') = Inl ValueError
   \<and> process_chunks ''id'' [''amt_x''] ex_lookup_dup 0 [ex_main, ex_main]
         (initial_state [''id'', ''amt_x''] ''id'') = Inl ValueError
   \<and> skipped ''id'' ex_chunk_no_id
   \<and> process_chunks ''id'' [''amt_x''] ex_lookup 0 [ex_chunk_no_id, ex_main]
         (initial_state [''id'', ''amt_x''] ''id'') =
       Inr \<lparr>output_file = Some [Header [''id'', ''amt_x''], Data [Some ''1'', Some ''10.2'']],
            nans_file = None, is_first_chunk = False, is_first_unmapped_chunk = True,
            diagnostics = [IdNotInChunk ''id'' 1]\<rparr>"
proof -
  note t = only_missing_id_column_is_recovered[where main_data_file = "Some ex_main"
      and raw_mapping = "\<lparr>columns = [''Amt Senf'', ''Cat No''], rows = []\<rparr>"
      and mapping_file = "Some ex_mapping_dup" and lk = ex_lookup_dup
      and main = "\<lparr>columns = [], rows = []\<rparr>" and e = IndexError and id_col = "''id''"
      and amt = "[''amt_x'']" and i = 0 and raw = ex_main
      and s = "initial_state [''id'', ''amt_x''] ''id''" and chunks = "[ex_main]"]
  from t ex_unresolved
  have a: "run (Some \<lparr>columns = [''Amt Senf'', ''Cat No''], rows = []\<rparr>) (Some ex_main)
            = Inl ValueError" by blast
  from t ex_load_mapping_dup
  have b: "run (Some ex_mapping_dup) None = Inl FileNotFoundError" by blast
  from t ex_load_mapping_dup ex_header_error
  have c: "run (Some ex_mapping_dup) (Some \<lparr>columns = [], rows = []\<rparr>) = Inl IndexError" by blast
  note t2 = only_missing_id_column_is_recovered[where e = ValueError and id_col = "''id''"
      and amt = "[''amt_x'']" and lk = ex_lookup_dup and i = 0 and raw = ex_main
      and s = "initial_state [''id'', ''amt_x''] ''id''" and chunks = "[ex_main]"]
  from t2 ex_dup_chunk
  have d: "process_chunks ''id'' [''amt_x''] ex_lookup_dup 0 [ex_main, ex_main]
         (initial_state [''id'', ''amt_x''] ''id'') = Inl ValueError" by blast
  from a b c d ex_unresolved ex_load_mapping_dup ex_header_error ex_dup_run ex_dup_chunk
    ex_skipped(1) ex_process_chunks
  show ?thesis by blast
qed

section \<open>The identifier column\<close>

lemma id_column_data_fixpoint:
  "pick_id (map sanitize header) = Inr c \<Longrightarrow> sanitize c = c \<Longrightarrow> id_column_data header = Inr c"
  by (simp add: id_column_data_def)

lemma pick_id_priority:
  "pick_id cols =
     (if ''id'' \<in> set cols then Inr ''id''
      else if ''head_id'' \<in> set cols then Inr ''head_id''
      else if cols = [] then Inl IndexError else Inr (hd cols))"
  by (cases cols) (simp_all add: pick_id_def)

lemma ex_underscores_cols:
  "map sanitize (columns ex_main_underscores) = [''a__b'', ''amt_x'']"
  by (simp add: ex_main_underscores_def sanitize_eval)

lemma ex_underscores_id: "id_column_data (columns ex_main_underscores) = Inr ''a_b''"
  by (simp add: id_column_data_def pick_id_def ex_main_underscores_def sanitize_eval)

lemma ex_underscores_reader: "csv_reader ex_main_underscores = [ex_main_underscores]"
  by (simp add: csv_reader_def ex_main_underscores_def split_rows.simps chunk_size_def)

lemma ex_underscores_skipped: "skipped ''a_b'' ex_main_underscores"
  by (simp add: skipped_def ex_underscores_cols)

text \<open>
  Claim C9 (the identifier column is \<^verbatim>\<open>id\<close>, else \<^verbatim>\<open>head_id\<close>, else the first column
  of the sanitized header). Line 103 of 9_code_optimized.py picks the column in this
  order, and line 105 sanitizes the picked name again. For the header
  \<^verbatim>\<open>a_-_b,amt_x\<close> the sanitized header is \<^verbatim>\<open>a__b,amt_x\<close>; the first column is
  \<^verbatim>\<open>a__b\<close>, which is what line 156 of code_5.py takes, but the identifier column of
  9_code_optimized.py is \<^verbatim>\<open>a_b\<close>, a name that is not in the header. Every chunk is then
  skipped: the run writes no primary output and a report with the header \<^verbatim>\<open>a_b\<close> only.
\<close>

theorem id_column_not_in_header:
  "map sanitize (columns ex_main_underscores) = [''a__b'', ''amt_x'']
   \<and> pick_id (map sanitize (columns ex_main_underscores)) = Inr ''a__b''
   \<and> id_column_data (columns ex_main_underscores) = Inr ''a_b''
   \<and> ''a_b'' \<notin> set (map sanitize (columns ex_main_underscores))
   \<and> run (Some ex_mapping) (Some ex_main_underscores) =
       Inr \<lparr>output_file = None, nans_file = Some [Header [''a_b'']],
            is_first_chunk = True, is_first_unmapped_chunk = True,
            diagnostics = [IdNotInHeader ''a_b'', IdNotInChunk ''a_b'' 1]\<rparr>"
proof (intro conjI)
  show "run (Some ex_mapping) (Some ex_main_underscores) =
       Inr \<lparr>output_file = None, nans_file = Some [Header [''a_b'']],
            is_first_chunk = True, is_first_unmapped_chunk = True,
            diagnostics = [IdNotInHeader ''a_b'', IdNotInChunk ''a_b'' 1]\<rparr>"
    unfolding run_def ex_load_mapping
    by (simp add: ex_underscores_id ex_underscores_cols ex_underscores_reader Let_def
          process_chunk_skip ex_underscores_skipped)
       (simp add: initial_state_def header_warnings_def amt_columns_def lower_def lower_char_def
          final_check_def to_csv_def)
qed (simp_all add: ex_underscores_cols ex_underscores_id pick_id_def)

section \<open>Sanitizing a name twice\<close>

text \<open>
  Claim C5 (idempotence of the sanitization): the spec requires that sanitizing a name
  twice gives the same result as sanitizing it once. The single pass of
  \<^verbatim>\<open>replace('__', '_')\<close> turns a run of three underscores into two, which a
  second application shortens again. At the header name \<^verbatim>\<open>a_-_b\<close> the first
  application yields \<^verbatim>\<open>a__b\<close> and the second \<^verbatim>\<open>a_b\<close>.
\<close>

theorem sanitize_twice_differs:
  "sanitize ''a_-_b'' = ''a__b'' \<and> sanitize (sanitize ''a_-_b'') = ''a_b''
   \<and> sanitize (sanitize ''a_-_b'') \<noteq> sanitize ''a_-_b''"
  by (simp add: sanitize_def strip_us_def is_word_char_def word_chars_def)

end
